theory Spec2Isabelle
  imports Complex_Main "HOL-Library.Sublist" "HOL-Library.AList"
begin

section \<open>Python values\<close>

text \<open>
  The values the pipeline handles are parsed JSON: the result of \<^verbatim>\<open>response.json()\<close>.
  A Python dict is an association list in insertion order; its keys are distinct, so
  \<open>map_of\<close> is the dictionary lookup. Numbers are Python ints.
\<close>

datatype json =
    JNull
  | JBool bool
  | JInt int
  | JStr string
  | JList "json list"
  | JObj "(string \<times> json) list"

text \<open>
  The exceptions of the two modules, all of them subclasses of Python's \<^verbatim>\<open>Exception\<close>.
  \<open>HTTPError\<close> is \<^verbatim>\<open>requests.exceptions.HTTPError\<close> with the status code of its response;
  \<open>RequestException\<close> stands for every other subclass of
  \<^verbatim>\<open>requests.exceptions.RequestException\<close> (connection errors, timeouts, an invalid header).
\<close>

datatype exn =
    HTTPError int
  | RequestException
  | KeyError
  | IndexError
  | NameError
  | TypeError
  | AttributeError
  | UnicodeEncodeError
  | OtherException

fun is_RequestException :: "exn \<Rightarrow> bool" where
  "is_RequestException (HTTPError _) = True"
| "is_RequestException RequestException = True"
| "is_RequestException _ = False"

fun is_HTTPError :: "exn \<Rightarrow> bool" where
  "is_HTTPError (HTTPError _) = True"
| "is_HTTPError _ = False"

text \<open>Truth value of a Python object, as \<^verbatim>\<open>if x:\<close> tests it.\<close>

fun truthy :: "json \<Rightarrow> bool" where
  "truthy JNull = False"
| "truthy (JBool b) = b"
| "truthy (JInt n) = (n \<noteq> 0)"
| "truthy (JStr s) = (s \<noteq> [])"
| "truthy (JList xs) = (xs \<noteq> [])"
| "truthy (JObj kv) = (kv \<noteq> [])"

text \<open>
  \<^verbatim>\<open>x.get(k, d)\<close>: the dictionary lookup with a default. Only a dict has the method; on any
  other value the attribute lookup raises \<^verbatim>\<open>AttributeError\<close>.
\<close>

fun py_get :: "json \<Rightarrow> string \<Rightarrow> json \<Rightarrow> exn + json" where
  "py_get (JObj kv) k d = Inr (case map_of kv k of None \<Rightarrow> d | Some v \<Rightarrow> v)"
| "py_get _ k d = Inl AttributeError"

text \<open>
  \<^verbatim>\<open>for x in v\<close>: a list gives its elements, a dict its keys, a string its characters;
  the other values are not iterable.
\<close>

fun py_iter :: "json \<Rightarrow> exn + json list" where
  "py_iter (JList xs) = Inr xs"
| "py_iter (JObj kv) = Inr (map (\<lambda>p. JStr (fst p)) kv)"
| "py_iter (JStr s) = Inr (map (\<lambda>c. JStr [c]) s)"
| "py_iter _ = Inl TypeError"

subsection \<open>\<^verbatim>\<open>str\<close> and \<^verbatim>\<open>repr\<close>\<close>

definition digit_char :: "nat \<Rightarrow> char" where
  "digit_char n = ''0123456789abcdef'' ! n"

fun digits :: "nat \<Rightarrow> string" where
  "digits n = (if n < 10 then [digit_char n] else digits (n div 10) @ [digit_char (n mod 10)])"

definition str_int :: "int \<Rightarrow> string" where
  "str_int i = (if i < 0 then CHR ''-'' # digits (nat (- i)) else digits (nat i))"

text \<open>
  \<^verbatim>\<open>repr\<close> of a string, for code points below 256: single quotes unless the string holds a
  single quote and no double quote; the quote and the backslash are escaped, and so are
  the characters that are not printable.
\<close>

definition repr_char :: "char \<Rightarrow> char \<Rightarrow> string" where
  "repr_char q c =
     (let n = (of_char c :: nat) in
      if c = q \<or> c = CHR 0x5C then [CHR 0x5C, c]
      else if n = 9 then [CHR 0x5C, CHR ''t'']
      else if n = 10 then [CHR 0x5C, CHR ''n'']
      else if n = 13 then [CHR 0x5C, CHR ''r'']
      else if n < 32 \<or> n = 127 \<or> (128 \<le> n \<and> n \<le> 160) \<or> n = 173
        then [CHR 0x5C, CHR ''x'', digit_char (n div 16), digit_char (n mod 16)]
      else [c])"

definition repr_str :: "string \<Rightarrow> string" where
  "repr_str s =
     (let q = (if CHR 0x27 \<in> set s \<and> CHR 0x22 \<notin> set s then CHR 0x22 else CHR 0x27)
      in [q] @ concat (map (repr_char q) s) @ [q])"

fun join :: "string \<Rightarrow> string list \<Rightarrow> string" where
  "join sep [] = []"
| "join sep [x] = x"
| "join sep (x # y # ys) = x @ sep @ join sep (y # ys)"

fun py_repr :: "json \<Rightarrow> string" where
  "py_repr JNull = ''None''"
| "py_repr (JBool b) = (if b then ''True'' else ''False'')"
| "py_repr (JInt i) = str_int i"
| "py_repr (JStr s) = repr_str s"
| "py_repr (JList xs) = ''['' @ join '', '' (map py_repr xs) @ '']''"
| "py_repr (JObj kv) =
     ''{'' @ join '', '' (map (\<lambda>p. repr_str (fst p) @ '': '' @ py_repr (snd p)) kv) @ ''}''"

fun py_str :: "json \<Rightarrow> string" where
  "py_str (JStr s) = s"
| "py_str v = py_repr v"

section \<open>The record flattener\<close>

text \<open>
  Each of the three generators builds its flat record with one dict literal. An entry of
  such a literal has one of three shapes:
  \<^item> \<^verbatim>\<open>'k': rec.get('k')\<close>, a top-level field (\<open>Top\<close>);
  \<^item> \<^verbatim>\<open>'p_c': rec.get('p', {}).get('c') if rec.get('p') else None\<close>, a field of a nested
    object (\<open>Nested\<close>);
  \<^item> \<^verbatim>\<open>'k': str(rec.get('k', d))\<close>, a collection kept as text (\<open>Text\<close>).
  The literal ends with \<^verbatim>\<open>'extracted_at': datetime.now().isoformat()\<close>.
\<close>

datatype field =
    Top string
  | Nested string string string
  | Text string json

fun field_key :: "field \<Rightarrow> string" where
  "field_key (Top k) = k"
| "field_key (Nested fk p c) = fk"
| "field_key (Text k d) = k"

fun eval_field :: "json \<Rightarrow> field \<Rightarrow> exn + json" where
  "eval_field r (Top k) = py_get r k JNull"
| "eval_field r (Nested fk p c) =
     (case py_get r p JNull of
        Inl e \<Rightarrow> Inl e
      | Inr pv \<Rightarrow>
          if truthy pv then
            (case py_get r p (JObj []) of
               Inl e \<Rightarrow> Inl e
             | Inr po \<Rightarrow> py_get po c JNull)
          else Inr JNull)"
| "eval_field r (Text k d) =
     (case py_get r k d of
        Inl e \<Rightarrow> Inl e
      | Inr v \<Rightarrow> Inr (JStr (py_str v)))"

text \<open>The entries are evaluated in the order of the literal; the first exception ends it.\<close>

fun eval_fields :: "json \<Rightarrow> field list \<Rightarrow> exn + (string \<times> json) list" where
  "eval_fields r [] = Inr []"
| "eval_fields r (f # fs) =
     (case eval_field r f of
        Inl e \<Rightarrow> Inl e
      | Inr v \<Rightarrow>
          (case eval_fields r fs of
             Inl e \<Rightarrow> Inl e
           | Inr kvs \<Rightarrow> Inr ((field_key f, v) # kvs)))"

definition order_fields :: "field list" where
  "order_fields =
    [Top ''id'', Top ''order_number'', Top ''name'', Top ''email'', Top ''phone'',
     Top ''created_at'', Top ''updated_at'', Top ''processed_at'', Top ''cancelled_at'',
     Top ''cancel_reason'', Top ''currency'', Top ''financial_status'',
     Top ''fulfillment_status'', Top ''total_price'', Top ''subtotal_price'',
     Top ''total_tax'', Top ''total_discounts'', Top ''total_weight'',
     Top ''total_tip_received'',
     Nested ''customer_id'' ''customer'' ''id'',
     Nested ''customer_email'' ''customer'' ''email'',
     Nested ''billing_address_name'' ''billing_address'' ''name'',
     Nested ''billing_address_company'' ''billing_address'' ''company'',
     Nested ''billing_address_address1'' ''billing_address'' ''address1'',
     Nested ''billing_address_city'' ''billing_address'' ''city'',
     Nested ''billing_address_province'' ''billing_address'' ''province'',
     Nested ''billing_address_country'' ''billing_address'' ''country'',
     Nested ''billing_address_zip'' ''billing_address'' ''zip'',
     Nested ''shipping_address_name'' ''shipping_address'' ''name'',
     Nested ''shipping_address_company'' ''shipping_address'' ''company'',
     Nested ''shipping_address_address1'' ''shipping_address'' ''address1'',
     Nested ''shipping_address_city'' ''shipping_address'' ''city'',
     Nested ''shipping_address_province'' ''shipping_address'' ''province'',
     Nested ''shipping_address_country'' ''shipping_address'' ''country'',
     Nested ''shipping_address_zip'' ''shipping_address'' ''zip'',
     Top ''note'', Top ''tags'']"

definition product_fields :: "field list" where
  "product_fields =
    [Top ''id'', Top ''title'', Top ''body_html'', Top ''vendor'', Top ''product_type'',
     Top ''created_at'', Top ''updated_at'', Top ''published_at'', Top ''template_suffix'',
     Top ''status'', Top ''published_scope'', Top ''tags'', Top ''admin_graphql_api_id'',
     Top ''handle'']"

definition customer_fields :: "field list" where
  "customer_fields =
    [Top ''id'', Top ''email'', Top ''accepts_marketing'', Top ''created_at'',
     Top ''updated_at'', Top ''first_name'', Top ''last_name'', Top ''orders_count'',
     Top ''state'', Top ''total_spent'', Top ''last_order_id'', Top ''note'',
     Top ''verified_email'', Top ''multipass_identifier'', Top ''tax_exempt'', Top ''tags'',
     Top ''last_order_name'', Top ''currency'', Top ''phone'',
     Text ''addresses'' (JList []),
     Top ''accepts_marketing_updated_at'', Top ''marketing_opt_in_level'',
     Text ''tax_exemptions'' (JList []),
     Top ''admin_graphql_api_id'',
     Text ''default_address'' (JObj [])]"

datatype kind = Orders | Products | Customers

fun kind_fields :: "kind \<Rightarrow> field list" where
  "kind_fields Orders = order_fields"
| "kind_fields Products = product_fields"
| "kind_fields Customers = customer_fields"

text \<open>
  The flat record of one raw record: the entries of the literal, then the stamp. The
  argument \<open>ts\<close> is what \<^verbatim>\<open>datetime.now().isoformat()\<close> returns when the literal reaches it.
\<close>

type_synonym flat = "(string \<times> json) list"

definition flatten :: "kind \<Rightarrow> json \<Rightarrow> string \<Rightarrow> exn + flat" where
  "flatten k r ts =
     (case eval_fields r (kind_fields k) of
        Inl e \<Rightarrow> Inl e
      | Inr kvs \<Rightarrow> Inr (kvs @ [(''extracted_at'', JStr ts)]))"

definition order_flat :: "json \<Rightarrow> string \<Rightarrow> exn + flat" where
  "order_flat order ts = flatten Orders order ts"

definition product_flat :: "json \<Rightarrow> string \<Rightarrow> exn + flat" where
  "product_flat product ts = flatten Products product ts"

definition customer_flat :: "json \<Rightarrow> string \<Rightarrow> exn + flat" where
  "customer_flat customer ts = flatten Customers customer ts"

text \<open>The fixed key list of a kind: the keys of its literal, in order.\<close>

definition flat_keys :: "kind \<Rightarrow> string list" where
  "flat_keys k = map field_key (kind_fields k) @ [''extracted_at'']"

text \<open>
  A raw record as the data model has it: a JSON object whose nested parents, where the
  flattener reads into them, are objects when they are present and not empty.
\<close>

fun parent_ok :: "json \<Rightarrow> field \<Rightarrow> bool" where
  "parent_ok (JObj kv) (Nested fk p c) =
     (case map_of kv p of
        None \<Rightarrow> True
      | Some (JObj po) \<Rightarrow> True
      | Some v \<Rightarrow> \<not> truthy v)"
| "parent_ok (JObj kv) _ = True"
| "parent_ok _ _ = False"

fun is_dict :: "json \<Rightarrow> bool" where
  "is_dict (JObj kv) = True"
| "is_dict _ = False"

definition raw_record :: "kind \<Rightarrow> json \<Rightarrow> bool" where
  "raw_record k r = (is_dict r \<and> list_all (parent_ok r) (kind_fields k))"

section \<open>The paginated fetcher\<close>

subsection \<open>Requests, responses and the outside world\<close>

text \<open>
  A GET request as \<^verbatim>\<open>requests.get(url, headers=headers, params=params)\<close> sends it. The
  token is \<open>None\<close> when the environment variable is not set.
\<close>

record request =
  url :: string
  access_token :: "string option"
  params :: "(string \<times> json) list"

text \<open>
  What the generators read of a response: the status code, the \<^verbatim>\<open>Link\<close> header when there
  is one, and what \<^verbatim>\<open>response.json()\<close> gives, a value or the exception it raises.
\<close>

record response =
  status_code :: int
  link_header :: "string option"
  json_body :: "exn + json"

text \<open>
  The outside world is a state \<open>'w\<close> with two operations: \<open>http_get\<close> answers a request
  with a response or with the exception \<^verbatim>\<open>requests.get\<close> raises, and \<open>clock_now\<close> is
  \<^verbatim>\<open>datetime.now().isoformat()\<close>.
\<close>

record 'w sys =
  http_get :: "request \<Rightarrow> 'w \<Rightarrow> (exn + response) \<times> 'w"
  clock_now :: "'w \<Rightarrow> string \<times> 'w"

text \<open>\<^verbatim>\<open>response.raise_for_status()\<close> of the requests library: statuses 400 to 599 raise.\<close>

definition raise_for_status :: "response \<Rightarrow> exn + unit" where
  "raise_for_status resp =
     (if 400 \<le> status_code resp \<and> status_code resp < 600
      then Inl (HTTPError (status_code resp)) else Inr ())"

text \<open>
  What a consumer of a generator observes, in order: the requests sent, the records
  yielded, the pauses (in seconds) and the lines printed; then the generator either
  returns or an exception leaves it.
\<close>

datatype event =
    Get request
  | Yield flat
  | Sleep rat
  | PrintError string exn

datatype outcome = Returned | Raised exn

subsection \<open>The Link header\<close>

definition rel_next :: string where
  \<open>rel_next = ''rel="next"''\<close>

text \<open>\<^verbatim>\<open>needle in hay\<close> on strings.\<close>

fun contains :: "string \<Rightarrow> string \<Rightarrow> bool" where
  "contains needle [] = (needle = [])"
| "contains needle (c # cs) = (prefix needle (c # cs) \<or> contains needle cs)"

definition cursor_char :: "char \<Rightarrow> bool" where
  "cursor_char c = (c \<noteq> CHR ''&'' \<and> c \<noteq> CHR ''>'')"

text \<open>
  \<^verbatim>\<open>re.search(r'page_info=([^&>]+)', link_header)\<close>: the leftmost place where
  \<^verbatim>\<open>page_info=\<close> is followed by at least one character other than \<^verbatim>\<open>&\<close> and \<^verbatim>\<open>>\<close>; group 1
  is the longest run of such characters. \<open>None\<close> is no match.
\<close>

fun search_page_info :: "string \<Rightarrow> string option" where
  "search_page_info [] = None"
| "search_page_info (c # cs) =
     (if prefix ''page_info='' (c # cs) then
        (case takeWhile cursor_char (drop 10 (c # cs)) of
           [] \<Rightarrow> search_page_info cs
         | m # ms \<Rightarrow> Some (m # ms))
      else search_page_info cs)"

text \<open>\<^verbatim>\<open>response.headers.get('Link', '')\<close>\<close>

definition link_of :: "response \<Rightarrow> string" where
  "link_of resp = (case link_header resp of None \<Rightarrow> [] | Some l \<Rightarrow> l)"

subsection \<open>The loop\<close>

text \<open>
  The generators \<^verbatim>\<open>orders\<close>, \<^verbatim>\<open>products\<close> and \<^verbatim>\<open>customers\<close> hold the same loop three times;
  the copies differ in the name of the resource (the path of the URL, the key of the list
  in the body, the word in the printed error), in the fields of the literal and in the
  first parameters. The model writes the loop once, over the kind.
\<close>

fun resource_name :: "kind \<Rightarrow> string" where
  "resource_name Orders = ''orders''"
| "resource_name Products = ''products''"
| "resource_name Customers = ''customers''"

text \<open>
  The part of the \<^verbatim>\<open>try\<close> block that talks to the server: the GET, the status check and
  the parse of the body.
\<close>

definition fetch_page :: "'w sys \<Rightarrow> request \<Rightarrow> 'w \<Rightarrow> (exn + response \<times> json) \<times> 'w" where
  "fetch_page sys req w =
     (case http_get sys req w of
        (Inl e, w1) \<Rightarrow> (Inl e, w1)
      | (Inr resp, w1) \<Rightarrow>
          (case raise_for_status resp of
             Inl e \<Rightarrow> (Inl e, w1)
           | Inr _ \<Rightarrow>
               (case json_body resp of
                  Inl e \<Rightarrow> (Inl e, w1)
                | Inr data \<Rightarrow> (Inr (resp, data), w1))))"

text \<open>
  The \<^verbatim>\<open>for\<close> loop over a page: each record is flattened, stamped and yielded. An
  exception of the flattener stops the loop after the records already yielded.
\<close>

fun yield_page :: "'w sys \<Rightarrow> kind \<Rightarrow> json list \<Rightarrow> 'w \<Rightarrow> event list \<times> exn option \<times> 'w" where
  "yield_page sys k [] w = ([], None, w)"
| "yield_page sys k (r # rs) w =
     (case eval_fields r (kind_fields k) of
        Inl e \<Rightarrow> ([], Some e, w)
      | Inr kvs \<Rightarrow>
          (case clock_now sys w of
             (ts, w1) \<Rightarrow>
               (case yield_page sys k rs w1 of
                  (evs, x, w2) \<Rightarrow>
                    (Yield (kvs @ [(''extracted_at'', JStr ts)]) # evs, x, w2))))"

text \<open>
  The \<^verbatim>\<open>except requests.exceptions.RequestException\<close> clause around the body of the loop:
  such an exception is printed and the loop is left; any other exception leaves the
  generator.
\<close>

definition on_exception :: "kind \<Rightarrow> exn \<Rightarrow> event list \<Rightarrow> 'w \<Rightarrow> event list \<times> outcome \<times> 'w" where
  "on_exception k e evs w =
     (if is_RequestException e then (evs @ [PrintError (resource_name k) e], Returned, w)
      else (evs, Raised e, w))"

text \<open>\<^verbatim>\<open>if page_info: params['page_info'] = page_info\<close>\<close>

definition set_page_info :: "string option \<Rightarrow> (string \<times> json) list \<Rightarrow> (string \<times> json) list" where
  "set_page_info page_info ps =
     (case page_info of
        None \<Rightarrow> ps
      | Some c \<Rightarrow> if c \<noteq> [] then AList.update ''page_info'' (JStr c) ps else ps)"

text \<open>
  The \<^verbatim>\<open>while True\<close> loop. It has no bound of its own (the server decides when the pages
  end), so the model counts iterations down from \<open>fuel\<close>; \<open>None\<close> is a loop still running
  when the fuel is spent.
\<close>

fun paginate ::
  "'w sys \<Rightarrow> kind \<Rightarrow> request \<Rightarrow> nat \<Rightarrow> string option \<Rightarrow> 'w \<Rightarrow> (event list \<times> outcome \<times> 'w) option"
where
  "paginate sys k req 0 page_info w = None"
| "paginate sys k req (Suc fuel) page_info w =
     (let req1 = req\<lparr>params := set_page_info page_info (params req)\<rparr> in
      case fetch_page sys req1 w of
        (Inl e, w1) \<Rightarrow> Some (on_exception k e [Get req1] w1)
      | (Inr (resp, data), w1) \<Rightarrow>
          (case py_get data (resource_name k) (JList []) of
             Inl e \<Rightarrow> Some (on_exception k e [Get req1] w1)
           | Inr items \<Rightarrow>
               if \<not> truthy items then Some ([Get req1], Returned, w1)
               else
                 (case py_iter items of
                    Inl e \<Rightarrow> Some (on_exception k e [Get req1] w1)
                  | Inr rs \<Rightarrow>
                      (case yield_page sys k rs w1 of
                         (evs, Some e, w2) \<Rightarrow> Some (on_exception k e (Get req1 # evs) w2)
                       | (evs, None, w2) \<Rightarrow>
                           (let link = link_of resp in
                            if contains rel_next link then
                              (case search_page_info link of
                                 Some c \<Rightarrow>
                                   (case paginate sys k req1 fuel (Some c) w2 of
                                      None \<Rightarrow> None
                                    | Some (evs', out, w3) \<Rightarrow>
                                        Some (Get req1 # evs @ [Sleep (1/2)] @ evs', out, w3))
                               | None \<Rightarrow> Some (Get req1 # evs, Returned, w2))
                            else Some (Get req1 # evs, Returned, w2))))))"

subsection \<open>The three resources\<close>

text \<open>\<^verbatim>\<open>os.getenv\<close> reads the environment; an f-string prints \<^verbatim>\<open>None\<close> as the word.\<close>

type_synonym environ = "string \<rightharpoonup> string"

definition fmt_opt :: "string option \<Rightarrow> string" where
  "fmt_opt v = (case v of None \<Rightarrow> ''None'' | Some s \<Rightarrow> s)"

definition base_url :: "environ \<Rightarrow> string" where
  "base_url env = ''https://'' @ (fmt_opt (env ''STORE_ID'') @ ''.myshopify.com'') @ ''/admin/api/2024-01''"

definition orders ::
  "'w sys \<Rightarrow> environ \<Rightarrow> int \<Rightarrow> string \<Rightarrow> nat \<Rightarrow> 'w \<Rightarrow> (event list \<times> outcome \<times> 'w) option" where
  "orders sys env limit status fuel w =
     paginate sys Orders
       \<lparr>url = base_url env @ ''/orders.json'', access_token = env ''API_TOKEN'',
        params = [(''limit'', JInt limit), (''status'', JStr status)]\<rparr>
       fuel None w"

definition products ::
  "'w sys \<Rightarrow> environ \<Rightarrow> int \<Rightarrow> nat \<Rightarrow> 'w \<Rightarrow> (event list \<times> outcome \<times> 'w) option" where
  "products sys env limit fuel w =
     paginate sys Products
       \<lparr>url = base_url env @ ''/products.json'', access_token = env ''API_TOKEN'',
        params = [(''limit'', JInt limit)]\<rparr>
       fuel None w"

definition customers ::
  "'w sys \<Rightarrow> environ \<Rightarrow> int \<Rightarrow> nat \<Rightarrow> 'w \<Rightarrow> (event list \<times> outcome \<times> 'w) option" where
  "customers sys env limit fuel w =
     paginate sys Customers
       \<lparr>url = base_url env @ ''/customers.json'', access_token = env ''API_TOKEN'',
        params = [(''limit'', JInt limit)]\<rparr>
       fuel None w"

text \<open>The generator of a kind, with the arguments of its signature (the status is for orders).\<close>

definition generator ::
  "'w sys \<Rightarrow> environ \<Rightarrow> kind \<Rightarrow> int \<Rightarrow> string \<Rightarrow> nat \<Rightarrow> 'w \<Rightarrow> (event list \<times> outcome \<times> 'w) option" where
  "generator sys env k limit status fuel w =
     (case k of
        Orders \<Rightarrow> orders sys env limit status fuel w
      | Products \<Rightarrow> products sys env limit fuel w
      | Customers \<Rightarrow> customers sys env limit fuel w)"

section \<open>Reading results\<close>

definition trace_of :: "(event list \<times> outcome \<times> 'w) option \<Rightarrow> event list" where
  "trace_of x = (case x of None \<Rightarrow> [] | Some (evs, out, w) \<Rightarrow> evs)"


text \<open>The value a flattening result holds under a key; \<open>None\<close> when flattening raised.\<close>

definition field_of :: "exn + flat \<Rightarrow> string \<Rightarrow> json option" where
  "field_of x key = (case x of Inl e \<Rightarrow> None | Inr f \<Rightarrow> map_of f key)"

text \<open>
  The source value of a selected field is missing from a raw record: the key is not
  there, or, for a nested field, the parent is not there, is empty or null, or lacks the
  child key.
\<close>

fun source_missing :: "json \<Rightarrow> field \<Rightarrow> bool" where
  "source_missing (JObj kv) (Top k) = (map_of kv k = None)"
| "source_missing (JObj kv) (Nested fk p c) =
     (case map_of kv p of
        None \<Rightarrow> True
      | Some (JObj po) \<Rightarrow> map_of po c = None
      | Some v \<Rightarrow> \<not> truthy v)"
| "source_missing (JObj kv) (Text k d) = (map_of kv k = None)"
| "source_missing _ _ = False"

text \<open>What the literal puts in place of a missing source value.\<close>

fun missing_value :: "field \<Rightarrow> json" where
  "missing_value (Text k d) = JStr (py_str d)"
| "missing_value _ = JNull"

section \<open>Reading traces\<close>

fun gets :: "event list \<Rightarrow> request list" where
  "gets [] = []"
| "gets (Get r # evs) = r # gets evs"
| "gets (_ # evs) = gets evs"

fun yielded :: "event list \<Rightarrow> flat list" where
  "yielded [] = []"
| "yielded (Yield f # evs) = f # yielded evs"
| "yielded (_ # evs) = yielded evs"

fun is_yield :: "event \<Rightarrow> bool" where
  "is_yield (Yield f) = True"
| "is_yield _ = False"

text \<open>
  Every request after the first comes after a pause of at least half a second since the
  request before it. The flag says whether such a pause has passed since the last request.
\<close>

fun paced :: "bool \<Rightarrow> event list \<Rightarrow> bool" where
  "paced slept [] = True"
| "paced slept (Get r # evs) = (slept \<and> paced False evs)"
| "paced slept (Sleep d # evs) = paced (slept \<or> 1/2 \<le> d) evs"
| "paced slept (_ # evs) = paced slept evs"

text \<open>The flat record \<open>f\<close> is a flattening of the raw record \<open>r\<close>, at the time \<open>f\<close> is stamped with.\<close>

definition is_flat_of :: "kind \<Rightarrow> json \<Rightarrow> flat \<Rightarrow> bool" where
  "is_flat_of k r f =
     (case rev f of
        (key, JStr ts) # _ \<Rightarrow> flatten k r ts = Inr f
      | _ \<Rightarrow> False)"

section \<open>A fake paginated API\<close>

text \<open>
  The test double of the pagination properties: a script of outcomes (a response, or the
  exception \<^verbatim>\<open>requests.get\<close> raises), served one per request in order, whatever the
  request asks; a request after the last one fails as a connection does. The clock is any
  function \<open>tick\<close> on a clock state.
\<close>

definition fake_api :: "('c \<Rightarrow> string \<times> 'c) \<Rightarrow> ((exn + response) list \<times> 'c) sys" where
  "fake_api tick =
     \<lparr>http_get = (\<lambda>req w.
        case fst w of
          [] \<Rightarrow> (Inl RequestException, w)
        | x # xs \<Rightarrow> (x, (xs, snd w))),
      clock_now = (\<lambda>w. case tick (snd w) of (ts, c) \<Rightarrow> (ts, (fst w, c)))\<rparr>"

text \<open>The records a page holds under the key of its kind.\<close>

definition records_of :: "kind \<Rightarrow> response \<Rightarrow> json list" where
  "records_of k p =
     (case json_body p of
        Inr (JObj kv) \<Rightarrow>
          (case map_of kv (resource_name k) of
             Some (JList rs) \<Rightarrow> rs
           | _ \<Rightarrow> [])
      | _ \<Rightarrow> [])"

text \<open>
  A page of records of kind \<open>k\<close>: a response with a success status whose body is an object
  holding a list of raw records under the key of the kind.
\<close>

definition good_page :: "kind \<Rightarrow> response \<Rightarrow> bool" where
  "good_page k p =
     ((status_code p < 400 \<or> 600 \<le> status_code p) \<and>
      (case json_body p of
         Inr (JObj kv) \<Rightarrow>
           (case map_of kv (resource_name k) of
              None \<Rightarrow> True
            | Some (JList rs) \<Rightarrow> list_all (raw_record k) rs
            | Some _ \<Rightarrow> False)
       | _ \<Rightarrow> False))"

definition has_next :: "response \<Rightarrow> bool" where
  "has_next p = (contains rel_next (link_of p) \<and> search_page_info (link_of p) \<noteq> None)"

text \<open>Pages that each hold at least one record and a next link with a cursor.\<close>

fun next_pages :: "kind \<Rightarrow> response list \<Rightarrow> bool" where
  "next_pages k [] = True"
| "next_pages k (p # ps) =
     (good_page k p \<and> records_of k p \<noteq> [] \<and> has_next p \<and> next_pages k ps)"

text \<open>
  A script of N pages for the loop: the pages before the last hold at least one record and
  carry a next link with a cursor; the last page carries no next relation.
\<close>

definition script_ok :: "kind \<Rightarrow> response list \<Rightarrow> bool" where
  "script_ok k pages =
     (pages \<noteq> [] \<and> next_pages k (butlast pages) \<and> good_page k (last pages) \<and>
      \<not> contains rel_next (link_of (last pages)))"


text \<open>What the claims about whole runs say of a trace, for a script of pages.\<close>

definition full_run :: "kind \<Rightarrow> response list \<Rightarrow> event list \<Rightarrow> bool" where
  "full_run k pages evs =
     (list_all2 (\<lambda>f r. is_flat_of k r f) (yielded evs) (concat (map (records_of k) pages)) \<and>
      length (gets evs) = length pages \<and> paced True evs)"

subsection \<open>Servers in general\<close>

text \<open>
  A server with a state of its own: the handler answers a request in the state of the
  server and gives the state after. The world is that state beside the state of the
  clock; reading the clock does not touch the server.
\<close>

definition api ::
  "(request \<Rightarrow> 's \<Rightarrow> (exn + response) \<times> 's) \<Rightarrow> ('c \<Rightarrow> string \<times> 'c) \<Rightarrow> ('s \<times> 'c) sys" where
  "api handler tick =
     \<lparr>http_get = (\<lambda>req w. case handler req (fst w) of (x, s) \<Rightarrow> (x, (s, snd w))),
      clock_now = (\<lambda>w. case tick (snd w) of (ts, c) \<Rightarrow> (ts, (fst w, c)))\<rparr>"

text \<open>The handler of the scripted fake: the next outcome of the script, whatever is asked.\<close>

definition script_handler ::
  "request \<Rightarrow> (exn + response) list \<Rightarrow> (exn + response) \<times> (exn + response) list" where
  "script_handler req xs = (case xs of [] \<Rightarrow> (Inl RequestException, []) | x # ys \<Rightarrow> (x, ys))"

text \<open>The request of a generator before its loop: the URL, the header and the first parameters.\<close>

definition first_request :: "environ \<Rightarrow> kind \<Rightarrow> int \<Rightarrow> string \<Rightarrow> request" where
  "first_request env k limit status =
     (case k of
        Orders \<Rightarrow>
          \<lparr>url = base_url env @ ''/orders.json'', access_token = env ''API_TOKEN'',
           params = [(''limit'', JInt limit), (''status'', JStr status)]\<rparr>
      | Products \<Rightarrow>
          \<lparr>url = base_url env @ ''/products.json'', access_token = env ''API_TOKEN'',
           params = [(''limit'', JInt limit)]\<rparr>
      | Customers \<Rightarrow>
          \<lparr>url = base_url env @ ''/customers.json'', access_token = env ''API_TOKEN'',
           params = [(''limit'', JInt limit)]\<rparr>)"

text \<open>
  The server serves the pages to the loop: asked the request \<open>req\<close> with the cursor \<open>cur\<close>
  set, it answers with the first page; asked the same request with the first
  \<^verbatim>\<open>page_info\<close> of that page's Link header set, it answers with the second page; and so on.
  A server that ignores the cursor and hands out its pages in order does so; a server that
  follows cursors does so when the first \<^verbatim>\<open>page_info\<close> of each header is the cursor of the
  next page.
\<close>

fun serves ::
  "(request \<Rightarrow> 's \<Rightarrow> (exn + response) \<times> 's) \<Rightarrow> request \<Rightarrow> string option \<Rightarrow> 's \<Rightarrow> response list \<Rightarrow> bool"
where
  "serves handler req cur s [] = True"
| "serves handler req cur s (p # ps) =
     (fst (handler (req\<lparr>params := set_page_info cur (params req)\<rparr>) s) = Inr p \<and>
      serves handler (req\<lparr>params := set_page_info cur (params req)\<rparr>)
        (search_page_info (link_of p))
        (snd (handler (req\<lparr>params := set_page_info cur (params req)\<rparr>) s)) ps)"

subsection \<open>Test data\<close>

definition env0 :: environ where
  "env0 = [''API_TOKEN'' \<mapsto> ''shpat_0123456789abcdef'', ''STORE_ID'' \<mapsto> ''demo'']"

definition tick0 :: "nat \<Rightarrow> string \<times> nat" where
  "tick0 n = (''2024-05-01T10:00:0'' @ digits n, Suc n)"

definition link_next :: string where
  \<open>link_next =
    ''<https://demo.myshopify.com/admin/api/2024-01/orders.json?limit=250&page_info=abc>; rel="next"''\<close>

text \<open>The header of a page in the middle, as Shopify sends it: the previous link first.\<close>

definition link_prev_next :: string where
  \<open>link_prev_next =
    ''<https://demo.myshopify.com/admin/api/2024-01/orders.json?limit=250&page_info=PREV>; rel="previous", <https://demo.myshopify.com/admin/api/2024-01/orders.json?limit=250&page_info=NEXT>; rel="next"''\<close>

definition link_no_cursor :: string where
  \<open>link_no_cursor = ''<https://demo.myshopify.com/admin/api/2024-01/orders.json?limit=250>; rel="next"''\<close>

definition orders_page :: "json list \<Rightarrow> string option \<Rightarrow> response" where
  "orders_page rs link =
     \<lparr>status_code = 200, link_header = link, json_body = Inr (JObj [(''orders'', JList rs)])\<rparr>"

definition order1 :: json where
  "order1 = JObj [(''id'', JInt 1), (''name'', JStr ''#1001''), (''customer'', JObj [(''id'', JInt 77)])]"

definition order2 :: json where
  "order2 = JObj [(''id'', JInt 2), (''name'', JStr ''#1002''), (''customer'', JNull)]"

definition order3 :: json where
  "order3 = JObj [(''id'', JInt 3), (''name'', JStr ''#1003'')]"


text \<open>The first request of the orders generator in the test environment.\<close>

definition orders_request :: request where
  "orders_request =
     \<lparr>url = ''https://demo.myshopify.com/admin/api/2024-01/orders.json'',
      access_token = Some ''shpat_0123456789abcdef'',
      params = [(''limit'', JInt 250), (''status'', JStr ''any'')]\<rparr>"

subsection \<open>A store that answers by cursor\<close>

text \<open>
  A server with three pages of one order each, which answers a request by its
  \<^verbatim>\<open>page_info\<close> parameter: no cursor or \<^verbatim>\<open>c1\<close> is page 1, \<^verbatim>\<open>c2\<close> page 2, \<^verbatim>\<open>c3\<close> page 3. Each page
  links to its neighbours as Shopify does, the previous link first.
\<close>

definition link_page1 :: string where
  \<open>link_page1 =
    ''<https://demo.myshopify.com/admin/api/2024-01/orders.json?limit=250&page_info=c2>; rel="next"''\<close>

definition link_page2 :: string where
  \<open>link_page2 =
    ''<https://demo.myshopify.com/admin/api/2024-01/orders.json?limit=250&page_info=c1>; rel="previous", <https://demo.myshopify.com/admin/api/2024-01/orders.json?limit=250&page_info=c3>; rel="next"''\<close>

definition link_page3 :: string where
  \<open>link_page3 =
    ''<https://demo.myshopify.com/admin/api/2024-01/orders.json?limit=250&page_info=c2>; rel="previous"''\<close>

definition store_page :: "(string \<times> json) list \<Rightarrow> response" where
  "store_page ps =
     (case map_of ps ''page_info'' of
        Some (JStr c) \<Rightarrow>
          if c = ''c2'' then orders_page [order2] (Some link_page2)
          else if c = ''c3'' then orders_page [order3] (Some link_page3)
          else orders_page [order1] (Some link_page1)
      | _ \<Rightarrow> orders_page [order1] (Some link_page1))"

definition three_page_store :: "nat sys" where
  "three_page_store =
     \<lparr>http_get = (\<lambda>req w. (Inr (store_page (params req)), w)), clock_now = tick0\<rparr>"

text \<open>The same store as a handler without a state.\<close>

definition store_handler :: "request \<Rightarrow> unit \<Rightarrow> (exn + response) \<times> unit" where
  "store_handler req s = (Inr (store_page (params req)), s)"

text \<open>
  A store of two pages that answers by cursor: no cursor is page 1, with two orders and a
  next link of cursor \<^verbatim>\<open>abc\<close>; the cursor \<^verbatim>\<open>abc\<close> is page 2, with one order and no link.
\<close>

definition two_page_handler :: "request \<Rightarrow> unit \<Rightarrow> (exn + response) \<times> unit" where
  "two_page_handler req s =
     (Inr (case map_of (params req) ''page_info'' of
             Some (JStr c) \<Rightarrow>
               if c = ''abc'' then orders_page [order3] None
               else orders_page [order1, order2] (Some link_next)
           | _ \<Rightarrow> orders_page [order1, order2] (Some link_next)), s)"

section \<open>The load stage\<close>

text \<open>
  Modelled from the spec: the external load stage (the pipeline runtime that consumes a
  generator declared with write disposition merge and primary key \<^verbatim>\<open>id\<close>) is not part of
  this repository. The spec's words: a load strategy that inserts new rows and updates
  existing rows matched by primary key, rather than appending duplicates. A table is
  the list of its rows.
\<close>

definition row_id :: "flat \<Rightarrow> json option" where
  "row_id f = map_of f ''id''"

fun upsert :: "flat \<Rightarrow> flat list \<Rightarrow> flat list" where
  "upsert r [] = [r]"
| "upsert r (x # t) = (if row_id x = row_id r then r # t else x # upsert r t)"

definition merge_by_id :: "flat list \<Rightarrow> flat list \<Rightarrow> flat list" where
  "merge_by_id rows t = foldl (\<lambda>t r. upsert r t) t rows"

text \<open>
  Modelled from the spec: \<^verbatim>\<open>pipeline.run(generator, table_name=...)\<close> hands the rows the
  generator yields to the load stage, which merges them into the table.
\<close>

definition pipeline_run :: "(event list \<times> outcome \<times> 'w) option \<Rightarrow> flat list \<Rightarrow> flat list" where
  "pipeline_run run t = merge_by_id (yielded (trace_of run)) t"

section \<open>The connectivity probe\<close>

text \<open>
  The lines \<^verbatim>\<open>test_shopify_connection\<close> prints, one constructor per \<^verbatim>\<open>print\<close> statement,
  with the values its f-string interpolates.
\<close>

datatype line =
    TestingConnection string
  | ApiToken string string
  | TestingStep nat
  | ShopName string
  | ShopDomain string
  | ShopEmail string
  | TotalOrders string
  | TotalProducts string
  | TotalCustomers string
  | SampleOrderId string
  | SampleOrderNumber string
  | SampleOrderTotal string
  | AllTestsPassed
  | RunPipelineHint
  | ConfigurationError exn
  | CheckSecretsFile
  | AuthenticationError401
  | CheckTokenScopes
  | Scope string
  | NotFoundError404
  | CheckShopUrl
  | OtherHttpError exn
  | NetworkError exn
  | CheckConnection
  | UnexpectedError exn

text \<open>
  A statement of the \<^verbatim>\<open>try\<close> block: it runs in a world, prints lines, and gives a value or
  raises.
\<close>

type_synonym ('a, 'w) prog = "'w \<Rightarrow> (exn + 'a) \<times> line list \<times> 'w"

definition ret :: "'a \<Rightarrow> ('a, 'w) prog" where
  "ret x w = (Inr x, [], w)"

definition bind :: "('a, 'w) prog \<Rightarrow> ('a \<Rightarrow> ('b, 'w) prog) \<Rightarrow> ('b, 'w) prog" where
  "bind m f w =
     (case m w of
        (Inl e, ls, w1) \<Rightarrow> (Inl e, ls, w1)
      | (Inr x, ls, w1) \<Rightarrow> (case f x w1 of (r, ls2, w2) \<Rightarrow> (r, ls @ ls2, w2)))"

text \<open>
  \<^verbatim>\<open>print\<close> writes to the standard output, which takes a line or not: a stream whose
  encoding lacks a character of the line raises \<^verbatim>\<open>UnicodeEncodeError\<close> and writes nothing.
  The argument \<open>stdout\<close> says which lines the stream takes.
\<close>

definition print :: "(line \<Rightarrow> bool) \<Rightarrow> line \<Rightarrow> (unit, 'w) prog" where
  "print stdout l w = (if stdout l then (Inr (), [l], w) else (Inl UnicodeEncodeError, [], w))"

text \<open>
  The lines whose text the source starts with a check mark (U+2713) or a cross (U+2717);
  the other lines are ASCII text around the values they interpolate.
\<close>

fun marked :: "line \<Rightarrow> bool" where
  "marked (TestingConnection s) = False"
| "marked (ApiToken a b) = False"
| "marked (TestingStep n) = False"
| "marked CheckSecretsFile = False"
| "marked CheckTokenScopes = False"
| "marked (Scope s) = False"
| "marked CheckShopUrl = False"
| "marked CheckConnection = False"
| "marked _ = True"

text \<open>The lines that the \<^verbatim>\<open>except\<close> clauses print.\<close>

fun handler_line :: "line \<Rightarrow> bool" where
  "handler_line (ConfigurationError e) = True"
| "handler_line CheckSecretsFile = True"
| "handler_line AuthenticationError401 = True"
| "handler_line CheckTokenScopes = True"
| "handler_line (Scope s) = True"
| "handler_line NotFoundError404 = True"
| "handler_line CheckShopUrl = True"
| "handler_line (OtherHttpError e) = True"
| "handler_line (NetworkError e) = True"
| "handler_line CheckConnection = True"
| "handler_line (UnexpectedError e) = True"
| "handler_line _ = False"

text \<open>An expression that touches neither the world nor the output.\<close>

definition expr :: "exn + 'a \<Rightarrow> ('a, 'w) prog" where
  "expr x w = (x, [], w)"

text \<open>
  \<^verbatim>\<open>response = requests.get(url, headers=headers); response.raise_for_status();
  response.json()\<close>
\<close>

definition get_json :: "'w sys \<Rightarrow> request \<Rightarrow> (json, 'w) prog" where
  "get_json sys rq w =
     (case fetch_page sys rq w of
        (Inl e, w1) \<Rightarrow> (Inl e, [], w1)
      | (Inr (resp, data), w1) \<Rightarrow> (Inr data, [], w1))"

text \<open>\<^verbatim>\<open>orders_count > 0\<close>: ints and bools compare with an int, nothing else does.\<close>

fun py_gt0 :: "json \<Rightarrow> exn + bool" where
  "py_gt0 (JInt n) = Inr (0 < n)"
| "py_gt0 (JBool b) = Inr b"
| "py_gt0 _ = Inl TypeError"

text \<open>
  \<^verbatim>\<open>v[0]\<close>: the first element of a list, the first character of a string; a dict parsed
  from JSON has no key \<^verbatim>\<open>0\<close>; a number, a boolean and \<^verbatim>\<open>None\<close> have no subscript.
\<close>

fun py_first :: "json \<Rightarrow> exn + json" where
  "py_first (JList (x # xs)) = Inr x"
| "py_first (JList []) = Inl IndexError"
| "py_first (JStr (c # cs)) = Inr (JStr [c])"
| "py_first (JStr []) = Inl IndexError"
| "py_first (JObj kv) = Inl KeyError"
| "py_first _ = Inl TypeError"

text \<open>
  The names bound at module level when the function runs. The module imports \<^verbatim>\<open>dlt\<close>,
  \<^verbatim>\<open>requests\<close> and \<^verbatim>\<open>datetime\<close>; it does not import \<^verbatim>\<open>os\<close>.
\<close>

definition module_globals :: "string list" where
  "module_globals = [''dlt'', ''requests'', ''datetime'', ''test_shopify_connection'']"

text \<open>Looking up a global name that is not bound raises \<^verbatim>\<open>NameError\<close>.\<close>

definition lookup_global :: "string list \<Rightarrow> string \<Rightarrow> exn + unit" where
  "lookup_global globals name = (if name \<in> set globals then Inr () else Inl NameError)"

text \<open>\<^verbatim>\<open>f"{api_token[:10]}...{api_token[-4:]}"\<close>; \<^verbatim>\<open>None\<close> has no subscript.\<close>

definition token_parts :: "string option \<Rightarrow> exn + string \<times> string" where
  "token_parts api_token =
     (case api_token of
        None \<Rightarrow> Inl TypeError
      | Some t \<Rightarrow> Inr (take 10 t, drop (length t - 4) t))"

definition probe_request :: "environ \<Rightarrow> string \<Rightarrow> request" where
  "probe_request env path =
     \<lparr>url = base_url env @ path, access_token = env ''API_TOKEN'', params = []\<rparr>"

text \<open>The count checks 2, 3 and 4: the request, then \<^verbatim>\<open>response.json().get('count', 0)\<close>.\<close>

definition get_count :: "'w sys \<Rightarrow> environ \<Rightarrow> string \<Rightarrow> (json, 'w) prog" where
  "get_count sys env path =
     bind (get_json sys (probe_request env path)) (\<lambda>data.
       expr (py_get data ''count'' (JInt 0)))"

text \<open>Check 5, under \<^verbatim>\<open>if orders_count > 0\<close>.\<close>

definition sample_order :: "'w sys \<Rightarrow> (line \<Rightarrow> bool) \<Rightarrow> environ \<Rightarrow> (unit, 'w) prog" where
  "sample_order sys stdout env =
     bind (print stdout (TestingStep 5)) (\<lambda>_.
     bind (get_json sys (probe_request env ''/orders.json?limit=1'')) (\<lambda>orders_data.
     bind (expr (py_get orders_data ''orders'' JNull)) (\<lambda>found.
       if truthy found then
         bind (expr (py_first found)) (\<lambda>order.
         bind (expr (py_get order ''id'' JNull)) (\<lambda>v.
         bind (print stdout (SampleOrderId (py_str v))) (\<lambda>_.
         bind (expr (py_get order ''order_number'' JNull)) (\<lambda>v.
         bind (print stdout (SampleOrderNumber (py_str v))) (\<lambda>_.
         bind (expr (py_get order ''total_price'' JNull)) (\<lambda>v.
         print stdout (SampleOrderTotal (py_str v))))))))
       else ret ())))"

text \<open>The body of the \<^verbatim>\<open>try\<close> block, up to \<^verbatim>\<open>return True\<close>.\<close>

definition probe_body ::
  "'w sys \<Rightarrow> (line \<Rightarrow> bool) \<Rightarrow> string list \<Rightarrow> environ \<Rightarrow> (unit, 'w) prog" where
  "probe_body sys stdout globals env =
     bind (expr (lookup_global globals ''os'')) (\<lambda>_.
     bind (print stdout (TestingConnection (fmt_opt (env ''STORE_ID'') @ ''.myshopify.com''))) (\<lambda>_.
     bind (expr (token_parts (env ''API_TOKEN''))) (\<lambda>tp.
     bind (print stdout (ApiToken (fst tp) (snd tp))) (\<lambda>_.
     bind (print stdout (TestingStep 1)) (\<lambda>_.
     bind (get_json sys (probe_request env ''/shop.json'')) (\<lambda>shop_data.
     bind (expr (py_get shop_data ''shop'' (JObj []))) (\<lambda>shop.
     bind (expr (py_get shop ''name'' (JStr ''N/A''))) (\<lambda>v.
     bind (print stdout (ShopName (py_str v))) (\<lambda>_.
     bind (expr (py_get shop ''domain'' (JStr ''N/A''))) (\<lambda>v.
     bind (print stdout (ShopDomain (py_str v))) (\<lambda>_.
     bind (expr (py_get shop ''email'' (JStr ''N/A''))) (\<lambda>v.
     bind (print stdout (ShopEmail (py_str v))) (\<lambda>_.
     bind (print stdout (TestingStep 2)) (\<lambda>_.
     bind (get_count sys env ''/orders/count.json'') (\<lambda>orders_count.
     bind (print stdout (TotalOrders (py_str orders_count))) (\<lambda>_.
     bind (print stdout (TestingStep 3)) (\<lambda>_.
     bind (get_count sys env ''/products/count.json'') (\<lambda>products_count.
     bind (print stdout (TotalProducts (py_str products_count))) (\<lambda>_.
     bind (print stdout (TestingStep 4)) (\<lambda>_.
     bind (get_count sys env ''/customers/count.json'') (\<lambda>customers_count.
     bind (print stdout (TotalCustomers (py_str customers_count))) (\<lambda>_.
     bind (expr (py_gt0 orders_count)) (\<lambda>some.
     bind (if some then sample_order sys stdout env else ret ()) (\<lambda>_.
     bind (print stdout AllTestsPassed) (\<lambda>_.
     print stdout RunPipelineHint)))))))))))))))))))))))))"

text \<open>
  The \<^verbatim>\<open>except\<close> clauses, in their order: the first whose class the exception belongs to
  runs. Every exception of the model is an \<^verbatim>\<open>Exception\<close>, so the last clause takes what
  the others leave.
\<close>

fun is_KeyError :: "exn \<Rightarrow> bool" where
  "is_KeyError KeyError = True"
| "is_KeyError _ = False"

fun is_Exception :: "exn \<Rightarrow> bool" where
  "is_Exception _ = True"

text \<open>The clause for \<^verbatim>\<open>HTTPError\<close>: the status of the response decides what is printed.\<close>

definition http_error_clause :: "(line \<Rightarrow> bool) \<Rightarrow> exn \<Rightarrow> (unit, 'w) prog" where
  "http_error_clause stdout e =
     (case e of
        HTTPError st \<Rightarrow>
          if st = 401 then
            bind (print stdout AuthenticationError401) (\<lambda>_.
            bind (print stdout CheckTokenScopes) (\<lambda>_.
            bind (print stdout (Scope ''read_orders'')) (\<lambda>_.
            bind (print stdout (Scope ''read_products'')) (\<lambda>_.
            print stdout (Scope ''read_customers'')))))
          else if st = 404 then
            bind (print stdout NotFoundError404) (\<lambda>_.
            print stdout CheckShopUrl)
          else print stdout (OtherHttpError e)
      | _ \<Rightarrow> print stdout (OtherHttpError e))"

text \<open>
  Each clause prints and then returns False. A \<^verbatim>\<open>print\<close> that raises inside a clause is
  not caught by the clauses after it: the exception leaves the function.
\<close>

definition except_clauses :: "(line \<Rightarrow> bool) \<Rightarrow> exn \<Rightarrow> (bool, 'w) prog" where
  "except_clauses stdout e =
     (if is_KeyError e then
        bind (print stdout (ConfigurationError e)) (\<lambda>_.
        bind (print stdout CheckSecretsFile) (\<lambda>_.
        ret False))
      else if is_HTTPError e then
        bind (http_error_clause stdout e) (\<lambda>_.
        ret False)
      else if is_RequestException e then
        bind (print stdout (NetworkError e)) (\<lambda>_.
        bind (print stdout CheckConnection) (\<lambda>_.
        ret False))
      else if is_Exception e then
        bind (print stdout (UnexpectedError e)) (\<lambda>_.
        ret False)
      else expr (Inl e))"

text \<open>
  The function: its result is the boolean it returns, or the exception that leaves it;
  with the lines printed and the world after.
\<close>

definition test_shopify_connection ::
  "'w sys \<Rightarrow> (line \<Rightarrow> bool) \<Rightarrow> string list \<Rightarrow> environ \<Rightarrow> 'w \<Rightarrow> (exn + bool) \<times> line list \<times> 'w" where
  "test_shopify_connection sys stdout globals env w =
     (case probe_body sys stdout globals env w of
        (Inr _, ls, w1) \<Rightarrow> (Inr True, ls, w1)
      | (Inl e, ls, w1) \<Rightarrow>
          (case except_clauses stdout e w1 of (r, ls2, w2) \<Rightarrow> (r, ls @ ls2, w2)))"

subsection \<open>Test data of the probe\<close>

text \<open>A standard output that takes every line, and one whose encoding has neither mark.\<close>

definition utf8_stdout :: "line \<Rightarrow> bool" where
  "utf8_stdout l = True"

definition ascii_stdout :: "line \<Rightarrow> bool" where
  "ascii_stdout l = (\<not> marked l)"

definition no_token :: environ where
  "no_token = [''STORE_ID'' \<mapsto> ''demo'']"

definition json_page :: "json \<Rightarrow> exn + response" where
  "json_page v = Inr \<lparr>status_code = 200, link_header = None, json_body = Inr v\<rparr>"

definition status_page :: "int \<Rightarrow> exn + response" where
  "status_page st = Inr \<lparr>status_code = st, link_header = None, json_body = Inr (JObj [])\<rparr>"

definition shop_script :: "(exn + response) list" where
  "shop_script =
     [json_page (JObj [(''shop'', JObj [(''name'', JStr ''Demo''), (''domain'', JStr ''demo.myshopify.com''),
        (''email'', JStr ''owner@example.com'')])]),
      json_page (JObj [(''count'', JInt 1)]),
      json_page (JObj [(''count'', JInt 12)]),
      json_page (JObj [(''count'', JInt 5)]),
      json_page (JObj [(''orders'', JList [order1])])]"

text \<open>
  Two runs against the same script yield rows with the same ids in the same order, end
  alike and leave the same script; or both are still running when the fuel is spent.
\<close>

definition same_rows :: "(event list \<times> outcome \<times> (exn + response) list \<times> 'a) option \<Rightarrow>
    (event list \<times> outcome \<times> (exn + response) list \<times> 'b) option \<Rightarrow> bool" where
  "same_rows a b =
     (case (a, b) of
        (None, None) \<Rightarrow> True
      | (Some (evs1, out1, w1), Some (evs2, out2, w2)) \<Rightarrow>
          map row_id (yielded evs1) = map row_id (yielded evs2) \<and> out1 = out2 \<and> fst w1 = fst w2
      | _ \<Rightarrow> False)"

section \<open>Properties of the flattener\<close>

lemma eval_fields_keys:
  "eval_fields r fs = Inr kvs \<Longrightarrow> map fst kvs = map field_key fs"
  by (induction fs arbitrary: kvs) (auto split: sum.splits)

lemma eval_field_total:
  "is_dict r \<Longrightarrow> parent_ok r f \<Longrightarrow> \<exists>v. eval_field r f = Inr v"
  by (cases r; cases f) (auto split: option.splits json.splits)

lemma eval_fields_total:
  "is_dict r \<Longrightarrow> list_all (parent_ok r) fs \<Longrightarrow> \<exists>kvs. eval_fields r fs = Inr kvs"
proof (induction fs)
  case Nil
  then show ?case by simp
next
  case (Cons f fs)
  then obtain v kvs where "eval_field r f = Inr v" "eval_fields r fs = Inr kvs"
    using eval_field_total [of r f] by auto
  then show ?case by simp
qed

lemma eval_fields_lookup:
  "eval_fields r fs = Inr kvs \<Longrightarrow> f \<in> set fs \<Longrightarrow> distinct (map field_key fs) \<Longrightarrow>
   \<exists>v. eval_field r f = Inr v \<and> map_of kvs (field_key f) = Some v"
proof (induction fs arbitrary: kvs)
  case Nil
  then show ?case by simp
next
  case (Cons g fs)
  from Cons.prems(1) obtain v kvs' where
    g: "eval_field r g = Inr v" and rest: "eval_fields r fs = Inr kvs'"
    and kvs: "kvs = (field_key g, v) # kvs'"
    by (auto split: sum.splits)
  show ?case
  proof (cases "f = g")
    case True
    with g kvs show ?thesis by simp
  next
    case False
    with Cons.prems have mem: "f \<in> set fs" and d: "distinct (map field_key fs)"
      by auto
    from Cons.prems(3) have "field_key g \<notin> field_key ` set fs" by simp
    with mem have ne: "field_key f \<noteq> field_key g" by (metis imageI)
    from Cons.IH [OF rest mem d] ne kvs show ?thesis by auto
  qed
qed

lemma eval_field_missing:
  "source_missing r f \<Longrightarrow> eval_field r f = Inr v \<Longrightarrow> v = missing_value f"
  by (cases r; cases f) (auto split: option.splits json.splits if_splits)

lemma distinct_order_keys: "distinct (map field_key order_fields)"
  by (simp add: order_fields_def)

lemma distinct_product_keys: "distinct (map field_key product_fields)"
  by (simp add: product_fields_def)

lemma distinct_customer_keys: "distinct (map field_key customer_fields)"
  by (simp add: customer_fields_def)

lemma distinct_kind_keys: "distinct (map field_key (kind_fields k))"
  by (cases k) (simp_all add: distinct_order_keys distinct_product_keys distinct_customer_keys)

text \<open>The three key lists, written out.\<close>

lemma order_keys:
  "flat_keys Orders =
    [''id'', ''order_number'', ''name'', ''email'', ''phone'', ''created_at'',
     ''updated_at'', ''processed_at'', ''cancelled_at'', ''cancel_reason'', ''currency'',
     ''financial_status'', ''fulfillment_status'', ''total_price'', ''subtotal_price'',
     ''total_tax'', ''total_discounts'', ''total_weight'', ''total_tip_received'',
     ''customer_id'', ''customer_email'', ''billing_address_name'',
     ''billing_address_company'', ''billing_address_address1'', ''billing_address_city'',
     ''billing_address_province'', ''billing_address_country'', ''billing_address_zip'',
     ''shipping_address_name'', ''shipping_address_company'',
     ''shipping_address_address1'', ''shipping_address_city'',
     ''shipping_address_province'', ''shipping_address_country'',
     ''shipping_address_zip'', ''note'', ''tags'', ''extracted_at'']"
  by (simp add: flat_keys_def order_fields_def)

lemma product_keys:
  "flat_keys Products =
    [''id'', ''title'', ''body_html'', ''vendor'', ''product_type'', ''created_at'',
     ''updated_at'', ''published_at'', ''template_suffix'', ''status'',
     ''published_scope'', ''tags'', ''admin_graphql_api_id'', ''handle'',
     ''extracted_at'']"
  by (simp add: flat_keys_def product_fields_def)

lemma customer_keys:
  "flat_keys Customers =
    [''id'', ''email'', ''accepts_marketing'', ''created_at'', ''updated_at'',
     ''first_name'', ''last_name'', ''orders_count'', ''state'', ''total_spent'',
     ''last_order_id'', ''note'', ''verified_email'', ''multipass_identifier'',
     ''tax_exempt'', ''tags'', ''last_order_name'', ''currency'', ''phone'',
     ''addresses'', ''accepts_marketing_updated_at'', ''marketing_opt_in_level'',
     ''tax_exemptions'', ''admin_graphql_api_id'', ''default_address'',
     ''extracted_at'']"
  by (simp add: flat_keys_def customer_fields_def)

lemma flatten_keys: "flatten k r ts = Inr f \<Longrightarrow> map fst f = flat_keys k"
  by (auto simp: flatten_def flat_keys_def eval_fields_keys split: sum.splits)

lemma flatten_total: "raw_record k r \<Longrightarrow> \<exists>f. flatten k r ts = Inr f"
  using eval_fields_total [of r "kind_fields k"]
  by (auto simp: flatten_def raw_record_def)

text \<open>
  A record that is not a raw record of the data model makes the flattener raise: here
  the order's customer is a string, and \<^verbatim>\<open>.get\<close> is looked up on it.
\<close>

lemma order_flat_string_parent:
  "order_flat (JObj [(''id'', JInt 1), (''customer'', JStr ''x'')]) ts = Inl AttributeError"
  by (simp add: order_flat_def flatten_def order_fields_def)

text \<open>
  C3. Whenever flattening a record of kind \<open>k\<close> produces a flat record, its keys are
  exactly the fixed key list of \<open>k\<close>, in the order of the literal, whatever the record
  holds; and every raw record of the kind does produce one.
\<close>

theorem flat_record_keys:
  "(\<forall>f. flatten k r ts = Inr f \<longrightarrow> map fst f = flat_keys k) \<and>
   (raw_record k r \<longrightarrow> (\<exists>f. flatten k r ts = Inr f))"
  using flatten_keys flatten_total by blast

theorem flat_record_keys_witness:
  "raw_record Orders (JObj [(''id'', JInt 1), (''customer'', JNull)]) \<and>
   \<not> isl (flatten Orders (JObj [(''id'', JInt 1), (''customer'', JNull)]) ''2024-05-01T10:00:00'') \<and>
   map fst (projr (flatten Orders (JObj [(''id'', JInt 1), (''customer'', JNull)]) ''2024-05-01T10:00:00''))
     = flat_keys Orders"
  using flat_record_keys [of Orders "JObj [(''id'', JInt 1), (''customer'', JNull)]" "''2024-05-01T10:00:00''"]
  by (auto simp: raw_record_def order_fields_def)

text \<open>
  C4, as the claim states it, fails for the customers: a customer without
  \<^verbatim>\<open>addresses\<close> gets the text \<^verbatim>\<open>[]\<close> under that key, not null, because the literal takes
  \<^verbatim>\<open>str\<close> of the default.
\<close>

theorem missing_field_null_counterexample:
  "raw_record Customers (JObj [(''id'', JInt 7)]) \<and>
   source_missing (JObj [(''id'', JInt 7)]) (Text ''addresses'' (JList [])) \<and>
   field_of (customer_flat (JObj [(''id'', JInt 7)]) ''2024-05-01T10:00:00'') ''addresses''
     = Some (JStr ''[]'') \<and>
   field_of (customer_flat (JObj [(''id'', JInt 7)]) ''2024-05-01T10:00:00'') ''addresses''
     \<noteq> Some JNull"
  by (simp add: raw_record_def customer_fields_def field_of_def customer_flat_def flatten_def)

text \<open>
  C4, amended. Flattening a raw record of kind \<open>k\<close> does not fail, and every selected
  field whose source value is missing (also when its nested parent is absent) is
  null in the flat record, except the three text fields of the customers
  (\<^verbatim>\<open>addresses\<close>, \<^verbatim>\<open>tax_exemptions\<close>, \<^verbatim>\<open>default_address\<close>), which hold the text of their
  empty default (\<^verbatim>\<open>[]\<close>, \<^verbatim>\<open>[]\<close>, \<^verbatim>\<open>{}\<close>).
\<close>

theorem missing_fields:
  assumes "raw_record k r" and "f \<in> set (kind_fields k)" and "source_missing r f"
  shows "\<exists>fl. flatten k r ts = Inr fl \<and> map_of fl (field_key f) = Some (missing_value f)"
proof -
  from assms(1) obtain kvs where kvs: "eval_fields r (kind_fields k) = Inr kvs"
    using eval_fields_total [of r "kind_fields k"] by (auto simp: raw_record_def)
  from eval_fields_lookup [OF kvs assms(2) distinct_kind_keys]
  obtain v where v: "eval_field r f = Inr v" "map_of kvs (field_key f) = Some v"
    by blast
  from eval_field_missing [OF assms(3) v(1)] v(2)
  have "map_of kvs (field_key f) = Some (missing_value f)" by simp
  then have "map_of (kvs @ [(''extracted_at'', JStr ts)]) (field_key f) = Some (missing_value f)"
    by (simp add: map_add_Some_iff)
  with kvs show ?thesis by (simp add: flatten_def)
qed

theorem missing_fields_witness:
  "raw_record Orders (JObj [(''id'', JInt 1)]) \<and>
   Nested ''billing_address_city'' ''billing_address'' ''city'' \<in> set (kind_fields Orders) \<and>
   source_missing (JObj [(''id'', JInt 1)]) (Nested ''billing_address_city'' ''billing_address'' ''city'') \<and>
   field_of (flatten Orders (JObj [(''id'', JInt 1)]) ''2024-05-01T10:00:00'') ''billing_address_city''
     = Some JNull"
  using missing_fields [of Orders "JObj [(''id'', JInt 1)]"
      "Nested ''billing_address_city'' ''billing_address'' ''city''" "''2024-05-01T10:00:00''"]
  by (auto simp: raw_record_def order_fields_def field_of_def)

lemma missing_values:
  "missing_value (Text ''addresses'' (JList [])) = JStr ''[]''"
  "missing_value (Text ''tax_exemptions'' (JList [])) = JStr ''[]''"
  "missing_value (Text ''default_address'' (JObj [])) = JStr ''{}''"
  by simp_all

text \<open>
  C7. Flattening the same record a second time, at another time \<open>ts2\<close>, gives a flat
  record with the same keys and the same value under every key but \<^verbatim>\<open>extracted_at\<close>.
\<close>

theorem flatten_twice:
  assumes "flatten k r ts1 = Inr f1"
  shows "\<exists>f2. flatten k r ts2 = Inr f2 \<and> map fst f2 = map fst f1 \<and>
           (\<forall>key. key \<noteq> ''extracted_at'' \<longrightarrow> map_of f2 key = map_of f1 key)"
  using assms
  by (auto simp: flatten_def map_add_def split: sum.splits option.splits)

theorem flatten_twice_witness:
  "flatten Products (JObj [(''id'', JInt 3), (''title'', JStr ''Mug'')]) ''2024-05-01T10:00:00''
     = Inr (projr (flatten Products (JObj [(''id'', JInt 3), (''title'', JStr ''Mug'')]) ''2024-05-01T10:00:00'')) \<and>
   ''title'' \<noteq> ''extracted_at'' \<and>
   field_of (flatten Products (JObj [(''id'', JInt 3), (''title'', JStr ''Mug'')]) ''2024-05-02T11:30:00'') ''title''
     = Some (JStr ''Mug'')"
  using flatten_twice [of Products "JObj [(''id'', JInt 3), (''title'', JStr ''Mug'')]"
      "''2024-05-01T10:00:00''" _ "''2024-05-02T11:30:00''"]
  by (auto simp: field_of_def flatten_def product_fields_def)

lemma flatten_fails_alike: "flatten k r ts1 = Inl e \<Longrightarrow> flatten k r ts2 = Inl e"
  by (auto simp: flatten_def split: sum.splits)

section \<open>Properties of the paginated fetcher\<close>

lemma gets_append: "gets (xs @ ys) = gets xs @ gets ys"
  by (induction xs rule: gets.induct) auto

lemma yielded_append: "yielded (xs @ ys) = yielded xs @ yielded ys"
  by (induction xs rule: yielded.induct) auto

lemma gets_yields: "list_all is_yield evs \<Longrightarrow> gets evs = []"
  by (induction evs rule: gets.induct) auto

lemma paced_yields: "list_all is_yield evs \<Longrightarrow> paced b (evs @ rest) = paced b rest"
  by (induction b evs rule: paced.induct) auto

lemma is_flat_of_flatten: "flatten k r ts = Inr f \<Longrightarrow> is_flat_of k r f"
  by (auto simp: is_flat_of_def flatten_def split: sum.splits)

lemma fetch_page_good:
  assumes "http_get sys rq w = (Inr p, w1)" and "good_page k p"
  shows "\<exists>data. fetch_page sys rq w = (Inr (p, data), w1) \<and>
           py_get data (resource_name k) (JList []) = Inr (JList (records_of k p))"
  using assms
  by (auto simp: good_page_def fetch_page_def raise_for_status_def records_of_def
      split: sum.splits json.splits option.splits)


lemma fake_get: "http_get (fake_api tick) rq (x # xs, c) = (x, (xs, c))"
  by (simp add: fake_api_def)

lemma good_page_records: "good_page k p \<Longrightarrow> list_all (raw_record k) (records_of k p)"
  by (auto simp: good_page_def records_of_def split: sum.splits json.splits option.splits)

lemma yield_page_raw:
  "list_all (raw_record k) rs \<Longrightarrow>
   \<exists>evs w'. yield_page sys k rs w = (evs, None, w') \<and>
      list_all is_yield evs \<and> list_all2 (\<lambda>f r. is_flat_of k r f) (yielded evs) rs"
proof (induction rs arbitrary: w)
  case Nil
  then show ?case by simp
next
  case (Cons r rs)
  then obtain kvs where kvs: "eval_fields r (kind_fields k) = Inr kvs"
    using eval_fields_total [of r "kind_fields k"] by (auto simp: raw_record_def)
  obtain ts w1 where cl: "clock_now sys w = (ts, w1)" by (cases "clock_now sys w")
  from Cons obtain evs w' where
    ih: "yield_page sys k rs w1 = (evs, None, w')"
      "list_all is_yield evs" "list_all2 (\<lambda>f r. is_flat_of k r f) (yielded evs) rs"
    by fastforce
  have fl: "is_flat_of k r (kvs @ [(''extracted_at'', JStr ts)])"
    using kvs by (intro is_flat_of_flatten [of k r ts]) (simp add: flatten_def)
  show ?case using kvs cl ih fl by simp
qed

lemma yield_page_fake_script:
  "yield_page (fake_api tick) k rs w = (evs, x, w') \<Longrightarrow> fst w' = fst w"
proof (induction rs arbitrary: w evs x w')
  case Nil
  then show ?case by simp
next
  case (Cons r rs)
  show ?case
  proof (cases "eval_fields r (kind_fields k)")
    case (Inl e)
    with Cons.prems show ?thesis by simp
  next
    case (Inr kvs)
    obtain ts c1 where t: "tick (snd w) = (ts, c1)" by (cases "tick (snd w)")
    then have cl: "clock_now (fake_api tick) w = (ts, (fst w, c1))"
      by (simp add: fake_api_def)
    obtain evs1 x1 w2 where y: "yield_page (fake_api tick) k rs (fst w, c1) = (evs1, x1, w2)"
      by (cases "yield_page (fake_api tick) k rs (fst w, c1)")
    from Cons.IH [OF y] have "fst w2 = fst w" by simp
    moreover from Cons.prems Inr cl y have "w' = w2" by simp
    ultimately show ?thesis by simp
  qed
qed

lemma yield_page_fake:
  assumes "list_all (raw_record k) rs"
  shows "\<exists>evs c'. yield_page (fake_api tick) k rs (xs, c) = (evs, None, (xs, c')) \<and>
      list_all is_yield evs \<and> list_all2 (\<lambda>f r. is_flat_of k r f) (yielded evs) rs"
proof -
  from yield_page_raw [OF assms, of "fake_api tick" "(xs, c)"] obtain evs w' where
    y: "yield_page (fake_api tick) k rs (xs, c) = (evs, None, w')"
    and r: "list_all is_yield evs" "list_all2 (\<lambda>f r. is_flat_of k r f) (yielded evs) rs"
    by blast
  from yield_page_fake_script [OF y] have "w' = (xs, snd w')" by (cases w') simp
  with y r show ?thesis by metis
qed


lemma paginate_empty_page:
  assumes "fetch_page sys (req\<lparr>params := set_page_info cur (params req)\<rparr>) w = (Inr (resp, data), w1)"
    and "py_get data (resource_name k) (JList []) = Inr (JList [])"
  shows "paginate sys k req (Suc fuel) cur w =
           Some ([Get (req\<lparr>params := set_page_info cur (params req)\<rparr>)], Returned, w1)"
  using assms by (simp add: Let_def)

lemma paginate_full_page:
  assumes "fetch_page sys (req\<lparr>params := set_page_info cur (params req)\<rparr>) w = (Inr (resp, data), w1)"
    and "py_get data (resource_name k) (JList []) = Inr (JList rs)"
    and "rs \<noteq> []"
    and "yield_page sys k rs w1 = (evs, None, w2)"
  shows "paginate sys k req (Suc fuel) cur w =
     (if contains rel_next (link_of resp) then
        (case search_page_info (link_of resp) of
           Some c \<Rightarrow>
             (case paginate sys k (req\<lparr>params := set_page_info cur (params req)\<rparr>) fuel (Some c) w2 of
                None \<Rightarrow> None
              | Some (evs', out, w3) \<Rightarrow>
                  Some (Get (req\<lparr>params := set_page_info cur (params req)\<rparr>) # evs @ [Sleep (1/2)] @ evs', out, w3))
         | None \<Rightarrow> Some (Get (req\<lparr>params := set_page_info cur (params req)\<rparr>) # evs, Returned, w2))
      else Some (Get (req\<lparr>params := set_page_info cur (params req)\<rparr>) # evs, Returned, w2))"
  using assms by (simp add: Let_def)

lemma paginate_pages:
  "next_pages k pages \<Longrightarrow> good_page k p \<Longrightarrow> \<not> has_next p \<Longrightarrow> length pages < fuel \<Longrightarrow>
   \<exists>evs c'. paginate (fake_api tick) k req fuel cur (map Inr pages @ Inr p # rest, c) =
        Some (evs, Returned, (rest, c')) \<and>
      full_run k (pages @ [p]) evs"
proof (induction pages arbitrary: fuel req cur c)
  case Nil
  then obtain n where fuel: "fuel = Suc n" by (cases fuel) auto
  let ?req1 = "req\<lparr>params := set_page_info cur (params req)\<rparr>"
  from fetch_page_good [OF fake_get Nil.prems(2), of tick ?req1 rest c] obtain data where
    f: "fetch_page (fake_api tick) ?req1 (Inr p # rest, c) = (Inr (p, data), (rest, c))"
    and g: "py_get data (resource_name k) (JList []) = Inr (JList (records_of k p))"
    by blast
  show ?case
  proof (cases "records_of k p = []")
    case True
    with f g have "paginate (fake_api tick) k req (Suc n) cur (Inr p # rest, c) = Some ([Get ?req1], Returned, (rest, c))"
      by (intro paginate_empty_page) auto
    with True fuel show ?thesis by (simp add: full_run_def)
  next
    case False
    from yield_page_fake [OF good_page_records [OF Nil.prems(2)], of tick rest c]
    obtain evs c' where
      y: "yield_page (fake_api tick) k (records_of k p) (rest, c) = (evs, None, (rest, c'))"
      and ys: "list_all is_yield evs"
      and fl: "list_all2 (\<lambda>f r. is_flat_of k r f) (yielded evs) (records_of k p)"
      by blast
    have "paginate (fake_api tick) k req (Suc n) cur (Inr p # rest, c) = Some (Get ?req1 # evs, Returned, (rest, c'))"
      using paginate_full_page [OF f g False y, of n] Nil.prems(3)
      by (auto simp: has_next_def)
    moreover have "paced True (Get ?req1 # evs)"
      using paced_yields [OF ys, of False "[]"] by simp
    ultimately show ?thesis using fuel fl gets_yields [OF ys] by (simp add: full_run_def)
  qed
next
  case (Cons q qs)
  then obtain n where fuel: "fuel = Suc n" and n: "length qs < n" by (cases fuel) auto
  let ?req1 = "req\<lparr>params := set_page_info cur (params req)\<rparr>"
  let ?w = "map Inr qs @ Inr p # rest"
  from Cons.prems have good: "good_page k q" and ne: "records_of k q \<noteq> []"
    and nxt: "contains rel_next (link_of q)" and more: "next_pages k qs"
    by (auto simp: has_next_def)
  from Cons.prems obtain c0 where c0: "search_page_info (link_of q) = Some c0"
    by (auto simp: has_next_def)
  from fetch_page_good [OF fake_get good, of tick ?req1 ?w c] obtain data where
    f: "fetch_page (fake_api tick) ?req1 (Inr q # ?w, c) = (Inr (q, data), (?w, c))"
    and g: "py_get data (resource_name k) (JList []) = Inr (JList (records_of k q))"
    by blast
  from yield_page_fake [OF good_page_records [OF good], of tick ?w c]
  obtain evs c1 where
    y: "yield_page (fake_api tick) k (records_of k q) (?w, c) = (evs, None, (?w, c1))"
    and ys: "list_all is_yield evs"
    and fl: "list_all2 (\<lambda>f r. is_flat_of k r f) (yielded evs) (records_of k q)"
    by blast
  from Cons.IH [OF more Cons.prems(2) Cons.prems(3) n, of ?req1 "Some c0" c1] obtain evs' c' where
    r: "paginate (fake_api tick) k ?req1 n (Some c0) (?w, c1) = Some (evs', Returned, (rest, c'))"
    and fr: "full_run k (qs @ [p]) evs'"
    by blast
  let ?evs = "Get ?req1 # evs @ [Sleep (1/2)] @ evs'"
  have res: "paginate (fake_api tick) k req fuel cur (map Inr (q # qs) @ Inr p # rest, c) =
          Some (?evs, Returned, (rest, c'))"
    using paginate_full_page [OF f g ne y, of n] nxt c0 r fuel by simp
  have "paced True ?evs"
    using paced_yields [OF ys, of False "[Sleep (1/2)] @ evs'"] fr by (simp add: full_run_def)
  moreover have "length (gets ?evs) = length ((q # qs) @ [p])"
    using gets_yields [OF ys] fr by (simp add: gets_append full_run_def)
  moreover have "list_all2 (\<lambda>f r. is_flat_of k r f) (yielded ?evs)
      (concat (map (records_of k) ((q # qs) @ [p])))"
    using fl fr by (simp add: yielded_append list_all2_appendI full_run_def)
  ultimately have "full_run k ((q # qs) @ [p]) ?evs"
    by (simp add: full_run_def)
  with res show ?case by blast
qed

lemma paginate_scripted:
  assumes "script_ok k pages" and "length pages \<le> fuel"
  shows "\<exists>evs c'. paginate (fake_api tick) k req fuel cur (map Inr pages, c) = Some (evs, Returned, ([], c')) \<and>
      full_run k pages evs"
proof -
  from assms(1) have ne: "pages \<noteq> []" and np: "next_pages k (butlast pages)"
    and good: "good_page k (last pages)" and nn: "\<not> has_next (last pages)"
    by (auto simp: script_ok_def has_next_def)
  from ne have split: "pages = butlast pages @ [last pages]" by simp
  from ne assms(2) have "length (butlast pages) < fuel" by (cases pages) auto
  from paginate_pages [OF np good nn this, of tick req cur "[]" c] obtain evs c' where
    "paginate (fake_api tick) k req fuel cur (map Inr (butlast pages) @ [Inr (last pages)], c) =
        Some (evs, Returned, ([], c'))"
    and "full_run k (butlast pages @ [last pages]) evs"
    by blast
  moreover have "map Inr pages = map Inr (butlast pages) @ [Inr (last pages) :: exn + response]"
    using split by (metis list.simps(8,9) map_append)
  ultimately show ?thesis using split by auto
qed



lemma generator_paginate:
  "\<exists>req. \<forall>fuel w. generator sys env k limit status fuel w = paginate sys k req fuel None w"
  by (cases k) (auto simp: generator_def orders_def products_def customers_def)

lemma eval_field_exn: "eval_field r f = Inl e \<Longrightarrow> e = AttributeError"
  by (cases r; cases f) (auto split: sum.splits if_splits option.splits json.splits elim: py_get.elims)

lemma eval_fields_exn: "eval_fields r fs = Inl e \<Longrightarrow> e = AttributeError"
  by (induction fs) (auto split: sum.splits dest: eval_field_exn)

lemma yield_page_exn: "yield_page sys k rs w = (evs, Some e, w') \<Longrightarrow> e = AttributeError"
  by (induction rs arbitrary: w evs w') (auto split: sum.splits prod.splits dest: eval_fields_exn)


lemma paginate_raises:
  "paginate sys k req fuel cur w = Some (evs, Raised e, w') \<Longrightarrow> \<not> is_RequestException e"
proof (induction fuel arbitrary: req cur w evs w')
  case 0
  then show ?case by simp
next
  case (Suc fuel)
  let ?req1 = "req\<lparr>params := set_page_info cur (params req)\<rparr>"
  obtain x w1 where f: "fetch_page sys ?req1 w = (x, w1)" by (cases "fetch_page sys ?req1 w")
  show ?case
  proof (cases x)
    case (Inl e1)
    with Suc.prems f show ?thesis
      by (auto simp: Let_def on_exception_def split: if_splits)
  next
    case (Inr pd)
    obtain resp data where pd: "pd = (resp, data)" by (cases pd)
    show ?thesis
    proof (cases "py_get data (resource_name k) (JList [])")
      case (Inl e1)
      with Suc.prems f Inr pd show ?thesis
        by (auto simp: Let_def on_exception_def split: if_splits)
    next
      case items: (Inr items)
      show ?thesis
      proof (cases "truthy items")
        case False
        with Suc.prems f Inr pd items show ?thesis by (simp add: Let_def)
      next
        case True
        show ?thesis
        proof (cases "py_iter items")
          case (Inl e1)
          with Suc.prems f Inr pd items True show ?thesis
            by (auto simp: Let_def on_exception_def split: if_splits)
        next
          case rs: (Inr rs)
          obtain evs1 x1 w2 where y: "yield_page sys k rs w1 = (evs1, x1, w2)"
            by (cases "yield_page sys k rs w1")
          show ?thesis
          proof (cases x1)
            case (Some e1)
            with y have "e1 = AttributeError" by (auto dest: yield_page_exn)
            with Suc.prems f Inr pd items True rs y Some show ?thesis
              by (auto simp: Let_def on_exception_def)
          next
            case None
            with Suc.prems f Inr pd items True rs y show ?thesis
              by (auto simp: Let_def split: if_splits option.splits dest: Suc.IH)
          qed
        qed
      qed
    qed
  qed
qed

lemma fake_api_script: "fake_api tick = api script_handler tick"
  by (simp add: fake_api_def api_def script_handler_def fun_eq_iff split: list.splits)

lemma generator_first_request:
  "generator sys env k limit status fuel w
     = paginate sys k (first_request env k limit status) fuel None w"
  by (cases k) (simp_all add: generator_def first_request_def orders_def products_def customers_def)

lemma api_get:
  "http_get (api handler tick) rq (s, c) = (fst (handler rq s), (snd (handler rq s), c))"
  by (simp add: api_def split: prod.splits)

lemma yield_page_api_state:
  "yield_page (api handler tick) k rs w = (evs, x, w') \<Longrightarrow> fst w' = fst w"
proof (induction rs arbitrary: w evs x w')
  case Nil
  then show ?case by simp
next
  case (Cons r rs)
  show ?case
  proof (cases "eval_fields r (kind_fields k)")
    case (Inl e)
    with Cons.prems show ?thesis by simp
  next
    case (Inr kvs)
    obtain ts c1 where t: "tick (snd w) = (ts, c1)" by (cases "tick (snd w)")
    then have cl: "clock_now (api handler tick) w = (ts, (fst w, c1))"
      by (simp add: api_def)
    obtain evs1 x1 w2 where y: "yield_page (api handler tick) k rs (fst w, c1) = (evs1, x1, w2)"
      by (cases "yield_page (api handler tick) k rs (fst w, c1)")
    from Cons.IH [OF y] have "fst w2 = fst w" by simp
    moreover from Cons.prems Inr cl y have "w' = w2" by simp
    ultimately show ?thesis by simp
  qed
qed

lemma yield_page_api:
  assumes "list_all (raw_record k) rs"
  shows "\<exists>evs c'. yield_page (api handler tick) k rs (s, c) = (evs, None, (s, c')) \<and>
      list_all is_yield evs \<and> list_all2 (\<lambda>f r. is_flat_of k r f) (yielded evs) rs"
proof -
  from yield_page_raw [OF assms, of "api handler tick" "(s, c)"] obtain evs w' where
    y: "yield_page (api handler tick) k rs (s, c) = (evs, None, w')"
    and r: "list_all is_yield evs" "list_all2 (\<lambda>f r. is_flat_of k r f) (yielded evs) rs"
    by blast
  from yield_page_api_state [OF y] have "w' = (s, snd w')" by (cases w') simp
  with y r show ?thesis by metis
qed

lemma paginate_served:
  "next_pages k pages \<Longrightarrow> good_page k p \<Longrightarrow> \<not> has_next p \<Longrightarrow>
   serves handler req cur s (pages @ [p]) \<Longrightarrow> length pages < fuel \<Longrightarrow>
   \<exists>evs w'. paginate (api handler tick) k req fuel cur (s, c) = Some (evs, Returned, w') \<and>
      full_run k (pages @ [p]) evs"
proof (induction pages arbitrary: fuel req cur s c)
  case Nil
  then obtain n where fuel: "fuel = Suc n" by (cases fuel) auto
  let ?req1 = "req\<lparr>params := set_page_info cur (params req)\<rparr>"
  let ?s1 = "snd (handler ?req1 s)"
  from Nil.prems(4) have "http_get (api handler tick) ?req1 (s, c) = (Inr p, (?s1, c))"
    by (simp add: api_get)
  from fetch_page_good [OF this Nil.prems(2)] obtain data where
    f: "fetch_page (api handler tick) ?req1 (s, c) = (Inr (p, data), (?s1, c))"
    and g: "py_get data (resource_name k) (JList []) = Inr (JList (records_of k p))"
    by blast
  show ?case
  proof (cases "records_of k p = []")
    case True
    with f g have "paginate (api handler tick) k req (Suc n) cur (s, c) = Some ([Get ?req1], Returned, (?s1, c))"
      by (intro paginate_empty_page) auto
    with True fuel show ?thesis by (simp add: full_run_def)
  next
    case False
    from yield_page_api [OF good_page_records [OF Nil.prems(2)], of handler tick ?s1 c]
    obtain evs c' where
      y: "yield_page (api handler tick) k (records_of k p) (?s1, c) = (evs, None, (?s1, c'))"
      and ys: "list_all is_yield evs"
      and fl: "list_all2 (\<lambda>f r. is_flat_of k r f) (yielded evs) (records_of k p)"
      by blast
    have "paginate (api handler tick) k req (Suc n) cur (s, c) = Some (Get ?req1 # evs, Returned, (?s1, c'))"
      using paginate_full_page [OF f g False y, of n] Nil.prems(3)
      by (auto simp: has_next_def)
    moreover have "paced True (Get ?req1 # evs)"
      using paced_yields [OF ys, of False "[]"] by simp
    ultimately show ?thesis using fuel fl gets_yields [OF ys] by (simp add: full_run_def)
  qed
next
  case (Cons q qs)
  then obtain n where fuel: "fuel = Suc n" and n: "length qs < n" by (cases fuel) auto
  let ?req1 = "req\<lparr>params := set_page_info cur (params req)\<rparr>"
  let ?s1 = "snd (handler ?req1 s)"
  from Cons.prems have good: "good_page k q" and ne: "records_of k q \<noteq> []"
    and nxt: "contains rel_next (link_of q)" and more: "next_pages k qs"
    by (auto simp: has_next_def)
  from Cons.prems obtain c0 where c0: "search_page_info (link_of q) = Some c0"
    by (auto simp: has_next_def)
  from Cons.prems(4) have got: "http_get (api handler tick) ?req1 (s, c) = (Inr q, (?s1, c))"
    and srv: "serves handler ?req1 (Some c0) ?s1 (qs @ [p])"
    using c0 by (simp_all add: api_get)
  from fetch_page_good [OF got good] obtain data where
    f: "fetch_page (api handler tick) ?req1 (s, c) = (Inr (q, data), (?s1, c))"
    and g: "py_get data (resource_name k) (JList []) = Inr (JList (records_of k q))"
    by blast
  from yield_page_api [OF good_page_records [OF good], of handler tick ?s1 c]
  obtain evs c1 where
    y: "yield_page (api handler tick) k (records_of k q) (?s1, c) = (evs, None, (?s1, c1))"
    and ys: "list_all is_yield evs"
    and fl: "list_all2 (\<lambda>f r. is_flat_of k r f) (yielded evs) (records_of k q)"
    by blast
  from Cons.IH [OF more Cons.prems(2) Cons.prems(3) srv n, of c1] obtain evs' w' where
    r: "paginate (api handler tick) k ?req1 n (Some c0) (?s1, c1) = Some (evs', Returned, w')"
    and fr: "full_run k (qs @ [p]) evs'"
    by blast
  let ?evs = "Get ?req1 # evs @ [Sleep (1/2)] @ evs'"
  have res: "paginate (api handler tick) k req fuel cur (s, c) = Some (?evs, Returned, w')"
    using paginate_full_page [OF f g ne y, of n] nxt c0 r fuel by simp
  have "paced True ?evs"
    using paced_yields [OF ys, of False "[Sleep (1/2)] @ evs'"] fr by (simp add: full_run_def)
  moreover have "length (gets ?evs) = length ((q # qs) @ [p])"
    using gets_yields [OF ys] fr by (simp add: gets_append full_run_def)
  moreover have "list_all2 (\<lambda>f r. is_flat_of k r f) (yielded ?evs)
      (concat (map (records_of k) ((q # qs) @ [p])))"
    using fl fr by (simp add: yielded_append list_all2_appendI full_run_def)
  ultimately have "full_run k ((q # qs) @ [p]) ?evs"
    by (simp add: full_run_def)
  with res show ?case by blast
qed


lemma serves_script: "serves script_handler req cur (map Inr pages @ rest) pages"
  by (induction pages arbitrary: req cur) (simp_all add: script_handler_def)

text \<open>
  C1, amended. Take a fake API with N pages of records (N at least 1), where each of the
  pages 1..N-1 holds at least one record and carries a Link header with \<^verbatim>\<open>rel="next"\<close> and
  a cursor and page N carries no such relation, and which serves the pages to the loop:
  it answers the first request with page 1 and the request that carries the first
  \<^verbatim>\<open>page_info\<close> of page i's header with page i+1. Against it the generator of each kind
  returns (with any fuel of at least N), has yielded a flattening of every record of every
  page in page order and nothing else, has sent exactly N requests, and has paused at
  least half a second before every request after the first. What the loop does when the
  first \<^verbatim>\<open>page_info\<close> of a header is not the cursor of the next page is left to C2.
\<close>

theorem pagination_complete:
  assumes "script_ok k pages"
    and "serves handler (first_request env k limit status) None s pages"
    and "length pages \<le> fuel"
  shows "\<exists>evs w'. generator (api handler tick) env k limit status fuel (s, c)
            = Some (evs, Returned, w') \<and>
          list_all2 (\<lambda>f r. is_flat_of k r f) (yielded evs) (concat (map (records_of k) pages)) \<and>
          length (gets evs) = length pages \<and> paced True evs"
proof -
  from assms(1) have ne: "pages \<noteq> []" and np: "next_pages k (butlast pages)"
    and good: "good_page k (last pages)" and nn: "\<not> has_next (last pages)"
    by (auto simp: script_ok_def has_next_def)
  from ne have split: "butlast pages @ [last pages] = pages" by simp
  from ne assms(3) have l: "length (butlast pages) < fuel" by (cases pages) auto
  from assms(2) split
  have "serves handler (first_request env k limit status) None s (butlast pages @ [last pages])"
    by simp
  from paginate_served [OF np good nn this l, of tick c] split show ?thesis
    by (simp add: generator_first_request full_run_def)
qed

lemma two_pages_script:
  "script_ok Orders [orders_page [order1, order2] (Some link_next), orders_page [order3] None]"
  by (simp add: script_ok_def good_page_def orders_page_def has_next_def link_of_def link_next_def
      rel_next_def raw_record_def order_fields_def order1_def order2_def order3_def cursor_char_def
      records_of_def)

lemma two_pages_served:
  "serves two_page_handler (first_request env0 Orders 250 ''any'') None ()
     [orders_page [order1, order2] (Some link_next), orders_page [order3] None]"
  by (simp add: two_page_handler_def first_request_def set_page_info_def orders_page_def
      link_of_def link_next_def cursor_char_def)

theorem pagination_complete_witness:
  "script_ok Orders [orders_page [order1, order2] (Some link_next), orders_page [order3] None] \<and>
   serves two_page_handler (first_request env0 Orders 250 ''any'') None ()
     [orders_page [order1, order2] (Some link_next), orders_page [order3] None] \<and>
   length [orders_page [order1, order2] (Some link_next), orders_page [order3] None] \<le> 2 \<and>
   (\<exists>evs w'. orders (api two_page_handler tick0) env0 250 ''any'' 2 ((), 0)
          = Some (evs, Returned, w') \<and>
      length (yielded evs) = 3 \<and> length (gets evs) = 2 \<and> paced True evs)"
proof -
  have l: "length [orders_page [order1, order2] (Some link_next), orders_page [order3] None] \<le> 2"
    by simp
  from pagination_complete [OF two_pages_script two_pages_served l, of tick0 0]
  obtain evs w' where
    r: "orders (api two_page_handler tick0) env0 250 ''any'' 2 ((), 0) = Some (evs, Returned, w')"
    and y: "list_all2 (\<lambda>f r. is_flat_of Orders r f) (yielded evs)
        (concat (map (records_of Orders) [orders_page [order1, order2] (Some link_next), orders_page [order3] None]))"
    and g: "length (gets evs) = 2" and p: "paced True evs"
    by (auto simp: generator_def)
  from y have "length (yielded evs) = 3"
    by (auto dest!: list_all2_lengthD simp: records_of_def orders_page_def)
  with r g p two_pages_script two_pages_served l show ?thesis by blast
qed

text \<open>
  The scripted fake serves any script of pages, so the property holds against it with the
  script as the pages.
\<close>

lemma scripted_pagination:
  assumes "script_ok k pages" and "length pages \<le> fuel"
  shows "\<exists>evs c'. generator (fake_api tick) env k limit status fuel (map Inr pages, c)
            = Some (evs, Returned, ([], c')) \<and> full_run k pages evs"
  using paginate_scripted [OF assms, of tick "first_request env k limit status" None c]
  by (simp add: generator_first_request)

text \<open>
  C1 as the claim states it fails when a page before the last is empty: the loop ends at
  \<^verbatim>\<open>if not orders_data: break\<close>. Here page 1 of 2 is empty and carries a next link; the
  generator sends one request and yields nothing, and the order of page 2 is never
  fetched.
\<close>

theorem empty_page_counterexample:
  "has_next (orders_page [] (Some link_next)) \<and>
   good_page Orders (orders_page [] (Some link_next)) \<and>
   good_page Orders (orders_page [order3] None) \<and>
   \<not> contains rel_next (link_of (orders_page [order3] None)) \<and>
   concat (map (records_of Orders) [orders_page [] (Some link_next), orders_page [order3] None]) = [order3] \<and>
   orders (fake_api tick0) env0 250 ''any'' 2
     (map Inr [orders_page [] (Some link_next), orders_page [order3] None], 0)
     = Some ([Get orders_request], Returned, ([Inr (orders_page [order3] None)], 0))"
  by (simp add: good_page_def orders_page_def has_next_def link_of_def link_next_def
      rel_next_def raw_record_def order_fields_def order3_def cursor_char_def records_of_def
      orders_def numeral_2_eq_2 Let_def fetch_page_def fake_api_def raise_for_status_def
      set_page_info_def orders_request_def base_url_def fmt_opt_def env0_def)





text \<open>
  C6. When the Link header of a page holds \<^verbatim>\<open>rel="next"\<close> and no cursor can be matched in
  it, the generator returns after yielding the records of that page: no further request is
  sent and no exception is raised.
\<close>

theorem next_without_cursor_ends_stream:
  assumes "next_pages k pages" and "good_page k p"
    and "contains rel_next (link_of p)" and "search_page_info (link_of p) = None"
    and "length pages < fuel"
  shows "\<exists>evs c'. generator (fake_api tick) env k limit status fuel (map Inr pages @ Inr p # rest, c)
            = Some (evs, Returned, (rest, c')) \<and>
          list_all2 (\<lambda>f r. is_flat_of k r f) (yielded evs)
            (concat (map (records_of k) (pages @ [p]))) \<and>
          length (gets evs) = Suc (length pages)"
proof -
  obtain req where "\<And>fuel w. generator (fake_api tick) env k limit status fuel w
      = paginate (fake_api tick) k req fuel None w"
    using generator_paginate [of "fake_api tick" env k limit status] by blast
  moreover from assms(4) have "\<not> has_next p" by (simp add: has_next_def)
  ultimately show ?thesis
    using paginate_pages [OF assms(1,2) _ assms(5), of tick req None rest c]
    by (auto simp: full_run_def)
qed

theorem next_without_cursor_ends_stream_witness:
  "next_pages Orders [] \<and>
   good_page Orders (orders_page [order1] (Some link_no_cursor)) \<and>
   contains rel_next (link_of (orders_page [order1] (Some link_no_cursor))) \<and>
   search_page_info (link_of (orders_page [order1] (Some link_no_cursor))) = None \<and>
   length ([] :: response list) < 2 \<and>
   (\<exists>evs c'. orders (fake_api tick0) env0 250 ''any'' 2
        ([Inr (orders_page [order1] (Some link_no_cursor)), Inr (orders_page [order3] None)], 0)
          = Some (evs, Returned, ([Inr (orders_page [order3] None)], c')) \<and>
      length (yielded evs) = 1 \<and> length (gets evs) = 1)"
proof -
  have n: "next_pages Orders []" by simp
  have g: "good_page Orders (orders_page [order1] (Some link_no_cursor))"
    by (simp add: good_page_def orders_page_def raw_record_def order_fields_def order1_def)
  have c: "contains rel_next (link_of (orders_page [order1] (Some link_no_cursor)))"
    by (simp add: orders_page_def link_of_def link_no_cursor_def rel_next_def)
  have s: "search_page_info (link_of (orders_page [order1] (Some link_no_cursor))) = None"
    by (simp add: orders_page_def link_of_def link_no_cursor_def)
  have l: "length ([] :: response list) < 2" by simp
  from next_without_cursor_ends_stream [OF n g c s l, of tick0 env0 250 "''any''"
      "[Inr (orders_page [order3] None)]" 0]
  obtain evs c' where
    r: "orders (fake_api tick0) env0 250 ''any'' 2
        ([Inr (orders_page [order1] (Some link_no_cursor)), Inr (orders_page [order3] None)], 0)
          = Some (evs, Returned, ([Inr (orders_page [order3] None)], c'))"
    and y: "list_all2 (\<lambda>f r. is_flat_of Orders r f) (yielded evs)
        (concat (map (records_of Orders) ([] @ [orders_page [order1] (Some link_no_cursor)])))"
    and gs: "length (gets evs) = 1"
    by (auto simp: generator_def)
  from y have "length (yielded evs) = 1"
    by (auto dest!: list_all2_lengthD simp: records_of_def orders_page_def)
  with r gs n g c s l show ?thesis by blast
qed

lemma link_prev_next_rel: "contains rel_next link_prev_next"
  by (simp add: link_prev_next_def rel_next_def)

lemma link_prev_next_cursor: "search_page_info link_prev_next = Some ''PREV''"
  by (simp add: link_prev_next_def cursor_char_def)

text \<open>
  C2 is what the code misses. The pattern is searched in the whole header, so the cursor
  is the first \<^verbatim>\<open>page_info\<close> of the header. On a page in the middle Shopify lists the
  previous link first, and the next request carries the cursor of the previous page.
\<close>

theorem cursor_of_previous_link:
  "contains rel_next link_prev_next \<and>
   search_page_info link_prev_next = Some ''PREV'' \<and>
   map params (gets (trace_of (orders (fake_api tick0) env0 250 ''any'' 2
     (map Inr [orders_page [order1] (Some link_prev_next), orders_page [order2] None], 0))))
   = [[(''limit'', JInt 250), (''status'', JStr ''any'')],
      [(''limit'', JInt 250), (''status'', JStr ''any''), (''page_info'', JStr ''PREV'')]]"
  by (simp add: orders_page_def link_of_def link_prev_next_rel link_prev_next_cursor
      order_fields_def order1_def order2_def
      orders_def numeral_2_eq_2 Let_def fetch_page_def fake_api_def raise_for_status_def
      set_page_info_def base_url_def fmt_opt_def env0_def trace_of_def tick0_def)


text \<open>
  The consequence on a store of three pages: page 2 sends the loop back to page 1, page 3
  is never requested, and the generator never returns, whatever the fuel.
\<close>

lemma link_page1_next: "contains rel_next link_page1" "search_page_info link_page1 = Some ''c2''"
  by (simp_all add: link_page1_def rel_next_def cursor_char_def)

lemma link_page2_next: "contains rel_next link_page2" "search_page_info link_page2 = Some ''c1''"
  by (simp_all add: link_page2_def rel_next_def cursor_char_def)

lemma map_of_set_page_info:
  "c \<noteq> [] \<Longrightarrow> map_of (set_page_info (Some c) ps) ''page_info'' = Some (JStr c)"
  by (simp add: set_page_info_def update_conv')

lemma store_page_cases:
  assumes "map_of ps ''page_info'' \<in> {None, Some (JStr ''c1''), Some (JStr ''c2'')}"
  shows "\<exists>r c. store_page ps = orders_page [r] (Some (if c = ''c1'' then link_page2 else link_page1)) \<and>
           raw_record Orders r \<and> (c = ''c1'' \<or> c = ''c2'') \<and>
           contains rel_next (if c = ''c1'' then link_page2 else link_page1) \<and>
           search_page_info (if c = ''c1'' then link_page2 else link_page1) = Some c"
proof -
  have r1: "raw_record Orders order1" and r2: "raw_record Orders order2"
    by (simp_all add: raw_record_def order_fields_def order1_def order2_def)
  from assms consider "map_of ps ''page_info'' = Some (JStr ''c2'')"
    | "store_page ps = orders_page [order1] (Some link_page1)"
    by (auto simp: store_page_def)
  then show ?thesis
  proof cases
    case 1
    then have "store_page ps = orders_page [order2] (Some link_page2)"
      by (simp add: store_page_def)
    with r2 link_page2_next show ?thesis
      by (intro exI [of _ order2] exI [of _ "''c1''"]) simp
  next
    case 2
    with r1 link_page1_next show ?thesis
      by (intro exI [of _ order1] exI [of _ "''c2''"]) simp
  qed
qed

lemma previous_cursor_loops:
  "map_of (set_page_info cur (params req)) ''page_info'' \<in> {None, Some (JStr ''c1''), Some (JStr ''c2'')} \<Longrightarrow>
   paginate three_page_store Orders req fuel cur w = None"
proof (induction fuel arbitrary: req cur w)
  case 0
  then show ?case by simp
next
  case (Suc fuel)
  let ?req1 = "req\<lparr>params := set_page_info cur (params req)\<rparr>"
  from store_page_cases [OF Suc.prems] obtain r c where
    p: "store_page (params ?req1) = orders_page [r] (Some (if c = ''c1'' then link_page2 else link_page1))"
    and raw: "raw_record Orders r" and c: "c = ''c1'' \<or> c = ''c2''"
    and nxt: "contains rel_next (if c = ''c1'' then link_page2 else link_page1)"
    and cu: "search_page_info (if c = ''c1'' then link_page2 else link_page1) = Some c"
    by auto
  let ?p = "orders_page [r] (Some (if c = ''c1'' then link_page2 else link_page1))"
  have f: "fetch_page three_page_store ?req1 w = (Inr (?p, JObj [(''orders'', JList [r])]), w)"
    using p by (simp add: fetch_page_def three_page_store_def orders_page_def raise_for_status_def)
  have g: "py_get (JObj [(''orders'', JList [r])]) (resource_name Orders) (JList []) = Inr (JList [r])"
    by simp
  from yield_page_raw [of Orders "[r]" three_page_store w] raw obtain evs w2 where
    y: "yield_page three_page_store Orders [r] w = (evs, None, w2)"
    by auto
  have l: "link_of ?p = (if c = ''c1'' then link_page2 else link_page1)"
    by (simp add: link_of_def orders_page_def)
  from c have "c \<noteq> []" by auto
  then have "map_of (set_page_info (Some c) (params ?req1)) ''page_info'' = Some (JStr c)"
    by (rule map_of_set_page_info)
  with c have "map_of (set_page_info (Some c) (params ?req1)) ''page_info''
      \<in> {None, Some (JStr ''c1''), Some (JStr ''c2'')}"
    by auto
  from Suc.IH [OF this] have "paginate three_page_store Orders ?req1 fuel (Some c) w2 = None" .
  with paginate_full_page [OF f g _ y, of fuel] nxt cu l show ?case by simp
qed

lemma three_page_store_never_returns:
  "orders three_page_store env0 250 ''any'' fuel w = None"
  unfolding orders_def by (rule previous_cursor_loops) (simp add: set_page_info_def)


text \<open>
  The store of three pages that answers by cursor is outside the property: its pages are
  a script of the right shape, but the header of page 2 has the cursor of page 1 first,
  and the store does not serve page 3 to the loop.
\<close>

lemma link_page3_no_next: "\<not> contains rel_next link_page3"
  by (simp add: link_page3_def rel_next_def)

lemma three_pages_script:
  "script_ok Orders
     [orders_page [order1] (Some link_page1), orders_page [order2] (Some link_page2),
      orders_page [order3] (Some link_page3)]"
  by (simp add: script_ok_def good_page_def orders_page_def has_next_def link_of_def
      link_page1_next link_page2_next link_page3_no_next
      raw_record_def order_fields_def order1_def order2_def order3_def records_of_def)

lemma three_pages_not_served:
  "\<not> serves store_handler (first_request env0 Orders 250 ''any'') None ()
     [orders_page [order1] (Some link_page1), orders_page [order2] (Some link_page2),
      orders_page [order3] (Some link_page3)]"
  by (simp add: store_handler_def store_page_def first_request_def set_page_info_def
      orders_page_def link_of_def link_page1_next link_page2_next update_conv'
      order1_def order3_def)


section \<open>Properties of the load stage\<close>

lemma upsert_ids: "row_id ` set (upsert r t) = insert (row_id r) (row_id ` set t)"
  by (induction t) auto

lemma upsert_length_present:
  "row_id r \<in> row_id ` set t \<Longrightarrow> length (upsert r t) = length t"
  by (induction t) auto

lemma merge_ids: "row_id ` set (merge_by_id rows t) = row_id ` set rows \<union> row_id ` set t"
  unfolding merge_by_id_def
  by (induction rows arbitrary: t) (auto simp: upsert_ids)

lemma merge_length_present:
  "row_id ` set rows \<subseteq> row_id ` set t \<Longrightarrow> length (merge_by_id rows t) = length t"
  unfolding merge_by_id_def
proof (induction rows arbitrary: t)
  case Nil
  then show ?case by simp
next
  case (Cons r rows)
  then have "row_id r \<in> row_id ` set t" by auto
  then have l: "length (upsert r t) = length t" by (rule upsert_length_present)
  from Cons.prems have "row_id ` set rows \<subseteq> row_id ` set (upsert r t)"
    by (auto simp: upsert_ids)
  from Cons.IH [OF this] l show ?case by simp
qed

lemma merge_again:
  assumes "map row_id rows2 = map row_id rows1"
  shows "length (merge_by_id rows2 (merge_by_id rows1 t)) = length (merge_by_id rows1 t)"
proof -
  have "row_id ` set rows2 = row_id ` set rows1"
    using assms by (metis set_map)
  then show ?thesis
    by (intro merge_length_present) (simp add: merge_ids)
qed

text \<open>Two runs against the same script differ in their clocks only.\<close>

lemma yield_page_sim:
  "\<exists>evs1 evs2 x c1' c2'.
     yield_page (fake_api t1) k rs (xs, c1) = (evs1, x, (xs, c1')) \<and>
     yield_page (fake_api t2) k rs (xs, c2) = (evs2, x, (xs, c2')) \<and>
     map row_id (yielded evs1) = map row_id (yielded evs2) \<and>
     list_all is_yield evs1 \<and> list_all is_yield evs2"
proof (induction rs arbitrary: c1 c2)
  case Nil
  then show ?case by simp
next
  case (Cons r rs)
  show ?case
  proof (cases "eval_fields r (kind_fields k)")
    case (Inl e)
    then show ?thesis by simp
  next
    case (Inr kvs)
    obtain ts1 d1 where a: "t1 c1 = (ts1, d1)" by (cases "t1 c1")
    obtain ts2 d2 where b: "t2 c2 = (ts2, d2)" by (cases "t2 c2")
    from Cons [of d1 d2] obtain evs1 evs2 x c1' c2' where
      ih: "yield_page (fake_api t1) k rs (xs, d1) = (evs1, x, (xs, c1'))"
        "yield_page (fake_api t2) k rs (xs, d2) = (evs2, x, (xs, c2'))"
        "map row_id (yielded evs1) = map row_id (yielded evs2)"
        "list_all is_yield evs1" "list_all is_yield evs2"
      by blast
    have "clock_now (fake_api t1) (xs, c1) = (ts1, (xs, d1))"
      "clock_now (fake_api t2) (xs, c2) = (ts2, (xs, d2))"
      using a b by (simp_all add: fake_api_def)
    moreover have "row_id (kvs @ [(''extracted_at'', JStr ts1)]) = row_id (kvs @ [(''extracted_at'', JStr ts2)])"
      by (auto simp: row_id_def map_add_def split: option.splits)
    ultimately show ?thesis using Inr ih by simp
  qed
qed

lemma fetch_page_fake:
  "fst (fetch_page (fake_api t1) rq (xs, c1)) = fst (fetch_page (fake_api t2) rq (xs, c2)) \<and>
   snd (fetch_page (fake_api t1) rq (xs, c1)) = (tl xs, c1) \<and>
   snd (fetch_page (fake_api t2) rq (xs, c2)) = (tl xs, c2)"
  by (cases xs) (auto simp: fetch_page_def fake_api_def split: sum.splits)

lemma paginate_sim:
  "same_rows (paginate (fake_api t1) k req fuel cur (xs, c1))
             (paginate (fake_api t2) k req fuel cur (xs, c2))"
proof (induction fuel arbitrary: req cur xs c1 c2)
  case 0
  then show ?case by (simp add: same_rows_def)
next
  case (Suc fuel)
  let ?req1 = "req\<lparr>params := set_page_info cur (params req)\<rparr>"
  obtain x where f1: "fetch_page (fake_api t1) ?req1 (xs, c1) = (x, (tl xs, c1))"
    and f2: "fetch_page (fake_api t2) ?req1 (xs, c2) = (x, (tl xs, c2))"
    using fetch_page_fake [of t1 ?req1 xs c1 t2 c2]
    by (metis prod.collapse)
  show ?case
  proof (cases x)
    case (Inl e)
    with f1 f2 show ?thesis
      by (simp add: Let_def on_exception_def same_rows_def)
  next
    case (Inr pd)
    obtain resp data where pd: "pd = (resp, data)" by (cases pd)
    show ?thesis
    proof (cases "py_get data (resource_name k) (JList [])")
      case (Inl e)
      with f1 f2 Inr pd show ?thesis
        by (simp add: Let_def on_exception_def same_rows_def)
    next
      case items: (Inr items)
      show ?thesis
      proof (cases "truthy items")
        case False
        with f1 f2 Inr pd items show ?thesis by (simp add: Let_def same_rows_def)
      next
        case True
        show ?thesis
        proof (cases "py_iter items")
          case (Inl e)
          with f1 f2 Inr pd items True show ?thesis
            by (simp add: Let_def on_exception_def same_rows_def)
        next
          case rs: (Inr rs)
          from yield_page_sim [of t1 k rs "tl xs" c1 t2 c2]
          obtain evs1 evs2 y d1 d2 where
            y1: "yield_page (fake_api t1) k rs (tl xs, c1) = (evs1, y, (tl xs, d1))"
            and y2: "yield_page (fake_api t2) k rs (tl xs, c2) = (evs2, y, (tl xs, d2))"
            and ids: "map row_id (yielded evs1) = map row_id (yielded evs2)"
            by blast
          show ?thesis
          proof (cases y)
            case (Some e)
            with f1 f2 Inr pd items True rs y1 y2 ids show ?thesis
              by (simp add: Let_def on_exception_def same_rows_def yielded_append)
          next
            case None
            show ?thesis
            proof (cases "contains rel_next (link_of resp)")
              case False
              with f1 f2 Inr pd items True rs y1 y2 ids None show ?thesis
                by (simp add: Let_def same_rows_def)
            next
              case nxt: True
              show ?thesis
              proof (cases "search_page_info (link_of resp)")
                case nc: None
                with f1 f2 Inr pd items True rs y1 y2 ids None nxt show ?thesis
                  by (simp add: Let_def same_rows_def)
              next
                case (Some c0)
                from Suc.IH [of ?req1 "Some c0" "tl xs" d1 d2]
                have "same_rows (paginate (fake_api t1) k ?req1 fuel (Some c0) (tl xs, d1))
                   (paginate (fake_api t2) k ?req1 fuel (Some c0) (tl xs, d2))" .
                with f1 f2 Inr pd items True rs y1 y2 ids None nxt Some show ?thesis
                  by (auto simp: Let_def same_rows_def yielded_append split: option.splits)
              qed
            qed
          qed
        qed
      qed
    qed
  qed
qed


lemma generator_paginate_all:
  "\<exists>req. \<forall>sys fuel w. generator sys env k limit status fuel w = paginate sys k req fuel None w"
  by (cases k) (auto simp: generator_def orders_def products_def customers_def)

lemma same_rows_ids:
  "same_rows a b \<Longrightarrow> map row_id (yielded (trace_of a)) = map row_id (yielded (trace_of b))"
  by (auto simp: same_rows_def trace_of_def split: option.splits)

text \<open>
  C8. Against an unchanged backing store (the same script of server outcomes), extracting
  and merging by \<^verbatim>\<open>id\<close> a second time, at other times of the clock, leaves the table with
  the row count it has after the first run, for every kind, every script and every table
  to start from.
\<close>

theorem merge_rerun_row_count:
  fixes t1 t2 :: "'c \<Rightarrow> string \<times> 'c"
  shows "length (pipeline_run (generator (fake_api t2) env k limit status fuel (xs, c2))
            (pipeline_run (generator (fake_api t1) env k limit status fuel (xs, c1)) table))
       = length (pipeline_run (generator (fake_api t1) env k limit status fuel (xs, c1)) table)"
proof -
  obtain req where g: "\<And>(sys :: ((exn + response) list \<times> 'c) sys) fuel w.
      generator sys env k limit status fuel w = paginate sys k req fuel None w"
    using generator_paginate_all [of env k limit status] by blast
  have "map row_id (yielded (trace_of (paginate (fake_api t2) k req fuel None (xs, c2))))
      = map row_id (yielded (trace_of (paginate (fake_api t1) k req fuel None (xs, c1))))"
    by (rule same_rows_ids) (rule paginate_sim)
  then show ?thesis
    unfolding pipeline_run_def g by (rule merge_again)
qed

theorem merge_rerun_row_count_witness:
  "length (pipeline_run (orders (fake_api tick0) env0 250 ''any'' 2
              (map Inr [orders_page [order1, order2] (Some link_next), orders_page [order3] None], 7))
            (pipeline_run (orders (fake_api tick0) env0 250 ''any'' 2
              (map Inr [orders_page [order1, order2] (Some link_next), orders_page [order3] None], 0)) []))
     = 3"
proof -
  have "length (pipeline_run (orders (fake_api tick0) env0 250 ''any'' 2
              (map Inr [orders_page [order1, order2] (Some link_next), orders_page [order3] None], 0)) [])
     = 3"
    by (simp add: pipeline_run_def orders_page_def link_of_def link_next_def rel_next_def
      order_fields_def order1_def order2_def order3_def cursor_char_def
      orders_def numeral_2_eq_2 Let_def fetch_page_def fake_api_def raise_for_status_def
      set_page_info_def base_url_def fmt_opt_def env0_def trace_of_def tick0_def
      merge_by_id_def row_id_def)
  with merge_rerun_row_count [of tick0 env0 Orders 250 "''any''" 2
      "map Inr [orders_page [order1, order2] (Some link_next), orders_page [order3] None]" 7
      tick0 0 "[]"]
  show ?thesis by (simp add: generator_def)
qed


section \<open>Properties of the connectivity probe\<close>

lemma except_clauses_False:
  assumes "\<And>l. handler_line l \<Longrightarrow> stdout l"
  shows "\<exists>ls. except_clauses stdout e w = (Inr False, ls, w)"
  using assms
  by (cases e) (simp_all add: except_clauses_def http_error_clause_def bind_def print_def ret_def)

text \<open>
  C10, amended. On a standard output that takes every line the \<^verbatim>\<open>except\<close> clauses print (in
  particular one whose encoding has the cross U+2717), \<^verbatim>\<open>test_shopify_connection\<close> lets no
  exception out: it returns a boolean, which is True exactly when the body of the \<^verbatim>\<open>try\<close>
  block ran to its end, and False when any statement of it raised.
\<close>

theorem probe_returns_bool:
  assumes "\<forall>l. handler_line l \<longrightarrow> stdout l"
  shows "\<exists>ls w'. test_shopify_connection sys stdout globals env w
      = (Inr (\<not> isl (fst (probe_body sys stdout globals env w))), ls, w')"
proof (cases "probe_body sys stdout globals env w")
  case (fields r ls w1)
  show ?thesis
  proof (cases r)
    case (Inl e)
    obtain ls2 where "except_clauses stdout e w1 = (Inr False, ls2, w1)"
      using except_clauses_False [of stdout e w1] assms by blast
    with fields Inl show ?thesis by (simp add: test_shopify_connection_def)
  next
    case (Inr u)
    with fields show ?thesis by (simp add: test_shopify_connection_def)
  qed
qed

lemma probe_without_os:
  "''os'' \<notin> set globals \<Longrightarrow>
   test_shopify_connection sys stdout globals env w =
     (if stdout (UnexpectedError NameError) then (Inr False, [UnexpectedError NameError], w)
      else (Inl UnicodeEncodeError, [], w))"
  by (simp add: test_shopify_connection_def probe_body_def bind_def expr_def lookup_global_def
      except_clauses_def print_def ret_def)

lemma probe_as_written:
  "test_shopify_connection sys utf8_stdout module_globals env w
     = (Inr False, [UnexpectedError NameError], w)"
  by (simp add: probe_without_os module_globals_def utf8_stdout_def)

theorem probe_returns_bool_witness:
  "(\<forall>l. utf8_stdout l) \<and>
   test_shopify_connection (fake_api tick0) utf8_stdout module_globals env0 (shop_script, 0)
     = (Inr False, [UnexpectedError NameError], (shop_script, 0)) \<and>
   isl (fst (probe_body (fake_api tick0) utf8_stdout module_globals env0 (shop_script, 0)))"
proof -
  have a: "\<forall>l. utf8_stdout l" by (simp add: utf8_stdout_def)
  then have h: "\<forall>l. handler_line l \<longrightarrow> utf8_stdout l" by simp
  from probe_returns_bool [OF h, of "fake_api tick0" module_globals env0 "(shop_script, 0)"]
  have "isl (fst (probe_body (fake_api tick0) utf8_stdout module_globals env0 (shop_script, 0)))"
    by (auto simp: probe_as_written)
  with a show ?thesis by (simp add: probe_as_written)
qed

text \<open>
  C10 as the claim states it fails where the standard output cannot encode the cross: the
  \<^verbatim>\<open>print\<close> of the clause that handles the exception raises \<^verbatim>\<open>UnicodeEncodeError\<close>, no
  clause catches it, and it leaves the function. As the module is written this is the
  catch-all clause, on every run.
\<close>

theorem print_in_handler_counterexample:
  "test_shopify_connection (fake_api tick0) ascii_stdout module_globals env0 (shop_script, 0)
     = (Inl UnicodeEncodeError, [], (shop_script, 0))"
  by (simp add: probe_without_os module_globals_def ascii_stdout_def)


lemma probe_no_token:
  "''os'' \<in> set globals \<Longrightarrow> env ''API_TOKEN'' = None \<Longrightarrow>
   test_shopify_connection sys utf8_stdout globals env w =
     (Inr False, [TestingConnection (fmt_opt (env ''STORE_ID'') @ ''.myshopify.com''),
                  UnexpectedError TypeError], w)"
  by (simp add: test_shopify_connection_def probe_body_def bind_def expr_def lookup_global_def
      except_clauses_def print_def token_parts_def utf8_stdout_def ret_def)

text \<open>
  C9 is what the code misses. The module never imports \<^verbatim>\<open>os\<close>, so the first statement
  raises \<^verbatim>\<open>NameError\<close> and every run is reported as an unexpected error, whatever the
  credentials and the server: a missing token is not reported as a configuration error, a
  401 is not reported as an authentication error. With \<^verbatim>\<open>os\<close> bound, a missing token is
  \<^verbatim>\<open>None\<close> (\<^verbatim>\<open>os.getenv\<close> does not raise \<^verbatim>\<open>KeyError\<close>), and slicing it is a \<^verbatim>\<open>TypeError\<close>:
  an unexpected error again. The standard output here takes every line.
\<close>

theorem missing_credential_unexpected:
  "test_shopify_connection (fake_api tick0) utf8_stdout module_globals no_token (shop_script, 0)
     = (Inr False, [UnexpectedError NameError], (shop_script, 0)) \<and>
   test_shopify_connection (fake_api tick0) utf8_stdout (''os'' # module_globals) no_token (shop_script, 0)
     = (Inr False, [TestingConnection ''demo.myshopify.com'', UnexpectedError TypeError],
        (shop_script, 0)) \<and>
   test_shopify_connection (fake_api tick0) utf8_stdout module_globals env0 ([status_page 401], 0)
     = (Inr False, [UnexpectedError NameError], ([status_page 401], 0))"
  by (simp add: probe_as_written probe_no_token no_token_def fmt_opt_def)

text \<open>
  A result of True comes with every check printed: the output ends with the two closing
  lines of the \<^verbatim>\<open>try\<close> block.
\<close>

lemma bind_InrE:
  assumes "bind m f w = (Inr y, ls, w')"
  obtains x ls1 w1 ls2 where "m w = (Inr x, ls1, w1)" and "f x w1 = (Inr y, ls2, w')"
    and "ls = ls1 @ ls2"
  using assms by (auto simp: bind_def split: prod.splits sum.splits)

lemma probe_body_done:
  assumes "probe_body sys stdout globals env w = (Inr u, ls, w')"
  shows "\<exists>ls0. ls = ls0 @ [AllTestsPassed, RunPipelineHint]"
  using assms unfolding probe_body_def
  apply (elim bind_InrE)
  apply (simp add: print_def split: if_splits)
  done

lemma probe_true_all_passed:
  assumes "test_shopify_connection sys stdout globals env w = (Inr True, ls, w')"
  shows "\<exists>ls0. ls = ls0 @ [AllTestsPassed, RunPipelineHint]"
proof (cases "probe_body sys stdout globals env w")
  case (fields r ls1 w1)
  show ?thesis
  proof (cases r)
    case (Inl e)
    have "fst (except_clauses stdout e w1) \<noteq> Inr True"
      by (cases e)
        (auto simp: except_clauses_def http_error_clause_def bind_def print_def ret_def
          split: prod.splits sum.splits)
    with assms fields Inl show ?thesis
      by (auto simp: test_shopify_connection_def split: prod.splits)
  next
    case (Inr u)
    with assms fields have "ls = ls1" by (simp add: test_shopify_connection_def)
    with probe_body_done fields Inr show ?thesis by metis
  qed
qed

text \<open>With \<^verbatim>\<open>os\<close> bound and a token set, the clauses classify as the spec lists them.\<close>

lemma probe_401:
  "test_shopify_connection (fake_api tick0) utf8_stdout (''os'' # module_globals) env0 ([status_page 401], 0)
     = (Inr False,
        [TestingConnection ''demo.myshopify.com'', ApiToken ''shpat_0123'' ''cdef'', TestingStep 1,
         AuthenticationError401, CheckTokenScopes,
         Scope ''read_orders'', Scope ''read_products'', Scope ''read_customers''],
        ([], 0))"
  by (simp add: test_shopify_connection_def probe_body_def bind_def expr_def lookup_global_def
      except_clauses_def print_def token_parts_def env0_def fmt_opt_def get_json_def fetch_page_def
      fake_api_def status_page_def raise_for_status_def http_error_clause_def probe_request_def
      utf8_stdout_def ret_def)

lemma probe_404:
  "test_shopify_connection (fake_api tick0) utf8_stdout (''os'' # module_globals) env0 ([status_page 404], 0)
     = (Inr False,
        [TestingConnection ''demo.myshopify.com'', ApiToken ''shpat_0123'' ''cdef'', TestingStep 1,
         NotFoundError404, CheckShopUrl],
        ([], 0))"
  by (simp add: test_shopify_connection_def probe_body_def bind_def expr_def lookup_global_def
      except_clauses_def print_def token_parts_def env0_def fmt_opt_def get_json_def fetch_page_def
      fake_api_def status_page_def raise_for_status_def http_error_clause_def probe_request_def
      utf8_stdout_def ret_def)

lemma probe_500:
  "test_shopify_connection (fake_api tick0) utf8_stdout (''os'' # module_globals) env0 ([status_page 500], 0)
     = (Inr False,
        [TestingConnection ''demo.myshopify.com'', ApiToken ''shpat_0123'' ''cdef'', TestingStep 1,
         OtherHttpError (HTTPError 500)],
        ([], 0))"
  by (simp add: test_shopify_connection_def probe_body_def bind_def expr_def lookup_global_def
      except_clauses_def print_def token_parts_def env0_def fmt_opt_def get_json_def fetch_page_def
      fake_api_def status_page_def raise_for_status_def http_error_clause_def probe_request_def
      utf8_stdout_def ret_def)

lemma probe_network:
  "test_shopify_connection (fake_api tick0) utf8_stdout (''os'' # module_globals) env0 ([Inl RequestException], 0)
     = (Inr False,
        [TestingConnection ''demo.myshopify.com'', ApiToken ''shpat_0123'' ''cdef'', TestingStep 1,
         NetworkError RequestException, CheckConnection],
        ([], 0))"
  by (simp add: test_shopify_connection_def probe_body_def bind_def expr_def lookup_global_def
      except_clauses_def print_def token_parts_def env0_def fmt_opt_def get_json_def fetch_page_def
      fake_api_def probe_request_def utf8_stdout_def ret_def)

lemma probe_success:
  "test_shopify_connection (fake_api tick0) utf8_stdout (''os'' # module_globals) env0 (shop_script, 0)
     = (Inr True,
        [TestingConnection ''demo.myshopify.com'', ApiToken ''shpat_0123'' ''cdef'', TestingStep 1,
         ShopName ''Demo'', ShopDomain ''demo.myshopify.com'', ShopEmail ''owner@example.com'',
         TestingStep 2, TotalOrders ''1'', TestingStep 3, TotalProducts ''12'',
         TestingStep 4, TotalCustomers ''5'', TestingStep 5,
         SampleOrderId ''1'', SampleOrderNumber ''None'', SampleOrderTotal ''None'',
         AllTestsPassed, RunPipelineHint],
        ([], 0))"
  by (simp add: test_shopify_connection_def probe_body_def bind_def expr_def lookup_global_def
      print_def token_parts_def env0_def fmt_opt_def get_json_def fetch_page_def ret_def
      fake_api_def json_page_def raise_for_status_def probe_request_def shop_script_def
      get_count_def sample_order_def order1_def str_int_def digit_char_def utf8_stdout_def)

text \<open>
  With \<^verbatim>\<open>os\<close> bound and a standard output without the marks, the first marked line of the
  body raises, the catch-all clause runs, and its own line raises again.
\<close>

lemma probe_ascii_with_os:
  "test_shopify_connection (fake_api tick0) ascii_stdout (''os'' # module_globals) env0 (shop_script, 0)
     = (Inl UnicodeEncodeError,
        [TestingConnection ''demo.myshopify.com'', ApiToken ''shpat_0123'' ''cdef'', TestingStep 1],
        (tl shop_script, 0))"
  by (simp add: test_shopify_connection_def probe_body_def bind_def expr_def lookup_global_def
      print_def token_parts_def env0_def fmt_opt_def get_json_def fetch_page_def ret_def
      fake_api_def json_page_def raise_for_status_def probe_request_def shop_script_def
      except_clauses_def ascii_stdout_def)


end
